theory Spec2Isabelle
  imports Main "HOL-Library.Sublist"
begin

section \<open>JavaScript values as the container sees them\<close>

text \<open>
  The container of \<^verbatim>\<open>src/Container.js\<close> stores and returns arbitrary JavaScript
  values. The model keeps what the code observes of a value: whether it is
  \<^verbatim>\<open>null\<close> or \<^verbatim>\<open>undefined\<close> (\<^verbatim>\<open>_isset\<close>), whether it is truthy
  (\<^verbatim>\<open>_destroyReference\<close>), whether it is an object (the result of \<^verbatim>\<open>new\<close>), and
  the identity of objects. An object is an address; an error object carries its
  address, its \<^verbatim>\<open>name\<close> and its \<^verbatim>\<open>message\<close>; \<open>Inherited key\<close> is the object that every
  plain object inherits under \<open>key\<close> from \<^verbatim>\<open>Object.prototype\<close>. Numbers are integers
  (\<^verbatim>\<open>NaN\<close> is not represented), strings are lists of code units below 256.
\<close>

datatype val =
    Undefined
  | Null
  | Bool bool
  | Num int
  | Str string
  | Obj nat
  | ErrorObj nat string string
  | Inherited string

text \<open>A call either returns a value or throws one.\<close>

datatype 'a result = Returns 'a | Throws val

text \<open>\<^verbatim>\<open>_isset(value)\<close>: \<^verbatim>\<open>![null, undefined].includes(value)\<close>.\<close>

definition isset :: "val \<Rightarrow> bool" where
  "isset value = (value \<notin> set [Null, Undefined])"

text \<open>The truth value of \<^verbatim>\<open>if (v)\<close>.\<close>

fun truthy :: "val \<Rightarrow> bool" where
  "truthy Undefined = False"
| "truthy Null = False"
| "truthy (Bool b) = b"
| "truthy (Num n) = (n \<noteq> 0)"
| "truthy (Str s) = (s \<noteq> [])"
| "truthy (Obj a) = True"
| "truthy (ErrorObj a n m) = True"
| "truthy (Inherited key) = True"

text \<open>Whether \<^verbatim>\<open>new F\<close> keeps the value \<^verbatim>\<open>F\<close> returned instead of the new object.\<close>

fun isObject :: "val \<Rightarrow> bool" where
  "isObject (Obj a) = True"
| "isObject (ErrorObj a n m) = True"
| "isObject (Inherited key) = True"
| "isObject v = False"

section \<open>Callables\<close>

text \<open>
  A function value, as far as the container looks at it: the text that
  \<^verbatim>\<open>toString()\<close> gives, the three names \<^verbatim>\<open>getName\<close> reads (\<^verbatim>\<open>name\<close>,
  \<^verbatim>\<open>prototype.name\<close>, \<^verbatim>\<open>constructor.name\<close>; the empty string stands for a missing or
  falsy one), whether it can be called with \<^verbatim>\<open>new\<close>, and what running it does.
  \<open>ctor_name\<close> is \<open>None\<close> when the \<^verbatim>\<open>constructor\<close> of the function is \<^verbatim>\<open>undefined\<close>, and
  the name of its constructor otherwise (\<^verbatim>\<open>Function\<close>, unless the program changed it).
  \<open>body f this args a\<close> runs the function with the given \<^verbatim>\<open>this\<close> and arguments
  when \<open>a\<close> is the next free address; it gives the completion and the number of
  objects the run allocated (at the addresses \<open>a\<close>, \<open>a + 1\<close>, ...).
\<close>

record callable =
  source :: string
  fn_name :: string
  proto_name :: string
  ctor_name :: "string option"
  constructible :: bool
  body :: "val \<Rightarrow> val list \<Rightarrow> nat \<Rightarrow> val result \<times> nat"

text \<open>What \<^verbatim>\<open>bind\<close> stores: \<^verbatim>\<open>isCallable\<close> (\<^verbatim>\<open>typeof value === 'function'\<close>) tells the two apart.\<close>

datatype binding = Concrete val | Callable callable

fun isCallable :: "binding \<Rightarrow> bool" where
  "isCallable (Callable f) = True"
| "isCallable (Concrete v) = False"

text \<open>
  \<^verbatim>\<open>getName(obj)\<close> on a function:
  \<^verbatim>\<open>possible.name || possible.proto || possible.construct || possible.type\<close>.
\<close>

definition getName :: "callable \<Rightarrow> string" where
  "getName obj =
     (if fn_name obj \<noteq> [] then fn_name obj
      else if proto_name obj \<noteq> [] then proto_name obj
      else (case ctor_name obj of
              Some n \<Rightarrow> (if n \<noteq> [] then n else ''function'')
            | None \<Rightarrow> ''function''))"

subsection \<open>Reading the parameter names\<close>

text \<open>
  \<^verbatim>\<open>_readArguments\<close> matches \<^verbatim>\<open>/function.*?\(([^)]*)\)/\<close> against the text of the
  function. \<open>match_after\<close> is the part of the expression after the word
  \<^verbatim>\<open>function\<close>: the lazy \<^verbatim>\<open>.*?\<close> first tries the literal parenthesis at the current
  character (which then needs a closing parenthesis somewhere behind it, the group
  being everything up to the first one), and otherwise steps over the character
  unless it ends the line.
\<close>

definition is_line_terminator :: "char \<Rightarrow> bool" where
  "is_line_terminator ch = (of_char ch \<in> set [10, 13 :: nat])"

fun match_after :: "string \<Rightarrow> string option" where
  "match_after [] = None"
| "match_after (x # xs) =
     (if x = CHR ''('' \<and> CHR '')'' \<in> set xs then Some (takeWhile (\<lambda>ch. ch \<noteq> CHR '')'') xs)
      else if is_line_terminator x then None
      else match_after xs)"

text \<open>The leftmost start at which the whole expression matches; the result is group 1.\<close>

fun match_function :: "string \<Rightarrow> string option" where
  "match_function [] = None"
| "match_function (x # xs) =
     (if take 8 (x # xs) = ''function'' then
        (case match_after (drop 8 (x # xs)) of
           Some g \<Rightarrow> Some g
         | None \<Rightarrow> match_function xs)
      else match_function xs)"

text \<open>\<^verbatim>\<open>split(',')\<close>, \<^verbatim>\<open>trim()\<close> and the truthiness filter of a string.\<close>

fun split_comma :: "string \<Rightarrow> string list" where
  "split_comma [] = [[]]"
| "split_comma (x # xs) =
     (if x = CHR '','' then [] # split_comma xs
      else (case split_comma xs of
              [] \<Rightarrow> [[x]]
            | p # ps \<Rightarrow> (x # p) # ps))"

definition is_whitespace :: "char \<Rightarrow> bool" where
  "is_whitespace ch = (of_char ch \<in> set [9, 10, 11, 12, 13, 32, 160 :: nat])"

definition trim :: "string \<Rightarrow> string" where
  "trim s = rev (dropWhile is_whitespace (rev (dropWhile is_whitespace s)))"

definition readArguments :: "string \<Rightarrow> string list" where
  "readArguments text =
     (case match_function text of
        Some g \<Rightarrow> (if g \<noteq> [] then filter (\<lambda>arg. arg \<noteq> []) (map trim (split_comma g)) else [])
      | None \<Rightarrow> [])"

subsection \<open>What every plain object inherits\<close>

text \<open>
  The container keeps its maps in plain objects, and \<^verbatim>\<open>obj[key]\<close> on a plain object
  also finds what \<^verbatim>\<open>Object.prototype\<close> has under the key. These are its property
  names. Under \<^verbatim>\<open>__proto__\<close> an object finds \<^verbatim>\<open>Object.prototype\<close> itself, under
  \<^verbatim>\<open>constructor\<close> the function \<^verbatim>\<open>Object\<close>, which called with \<^verbatim>\<open>new\<close> and no arguments
  gives a new object, and under the other names built-in methods, which are
  functions that cannot be called with \<^verbatim>\<open>new\<close>. All of them have names, so that the
  container calls them with \<^verbatim>\<open>new\<close>, and their texts declare no parameters.
\<close>

definition object_prototype_names :: "string list" where
  "object_prototype_names =
     [''constructor'', ''__defineGetter__'', ''__defineSetter__'', ''hasOwnProperty'',
      ''__lookupGetter__'', ''__lookupSetter__'', ''isPrototypeOf'', ''propertyIsEnumerable'',
      ''toString'', ''valueOf'', ''__proto__'', ''toLocaleString'']"

definition inherited :: "string \<Rightarrow> bool" where
  "inherited key = (key \<in> set object_prototype_names)"

definition builtin :: "string \<Rightarrow> callable" where
  "builtin key =
     \<lparr>source = ''function '' @ (if key = ''constructor'' then ''Object'' else key)
                 @ ''() { [native code] }'',
      fn_name = (if key = ''constructor'' then ''Object'' else key),
      proto_name = [], ctor_name = Some ''Function'',
      constructible = (key = ''constructor''),
      body = (\<lambda>this args a. (Returns Undefined, 0))\<rparr>"

definition inherited_binding :: "string \<Rightarrow> binding option" where
  "inherited_binding key =
     (if key = ''__proto__'' then Some (Concrete (Inherited key))
      else if inherited key then Some (Callable (builtin key))
      else None)"

text \<open>
  \<^verbatim>\<open>obj[key] = v\<close> on a plain object overwrites the object's own property or makes
  one, except that under \<^verbatim>\<open>__proto__\<close> no own property is made. (What the assignment
  does there instead, to replace the prototype when \<open>v\<close> is an object or \<^verbatim>\<open>null\<close>, is
  not modelled: the maps below are those of objects that still have
  \<^verbatim>\<open>Object.prototype\<close> as their prototype.)
\<close>

definition put :: "string \<Rightarrow> 'a \<Rightarrow> (string \<rightharpoonup> 'a) \<Rightarrow> (string \<rightharpoonup> 'a)" where
  "put key v obj = (if key = ''__proto__'' \<and> obj key = None then obj else obj(key \<mapsto> v))"

section \<open>The pipeline\<close>

text \<open>
  Modelled from the spec: the Kernel (\<^verbatim>\<open>src/Services/App/Kernel\<close>) and the pipes of
  the tests (\<^verbatim>\<open>tests/mocks\<close>) are not among the sources, only the test that drives
  them is. A pipe exposes a method per direction, each taking the state and the
  continuation \<^verbatim>\<open>next\<close>; \<open>'r\<close> is what the terminal callback gives back.
\<close>

record ('s, 'r) pipe =
  pipe_handle :: "'s \<Rightarrow> ('s \<Rightarrow> 'r) \<Rightarrow> 'r"
  pipe_terminate :: "'s \<Rightarrow> ('s \<Rightarrow> 'r) \<Rightarrow> 'r"

datatype direction = Handle | Terminate

text \<open>
  Modelled from the spec: each pipe receives the current state and a continuation
  that, called with a state, advances to the next pipe; the continuation of the
  last pipe delivers the state to the terminal callback.
\<close>

fun thread ::
  "(('s, 'r) pipe \<Rightarrow> 's \<Rightarrow> ('s \<Rightarrow> 'r) \<Rightarrow> 'r) \<Rightarrow> ('s, 'r) pipe list \<Rightarrow> 's \<Rightarrow> ('s \<Rightarrow> 'r) \<Rightarrow> 'r" where
  "thread m [] state callback = callback state"
| "thread m (p # ps) state callback = m p state (\<lambda>state'. thread m ps state' callback)"

record ('s, 'r) pipeline =
  passable :: 's
  pipes :: "('s, 'r) pipe list"

text \<open>
  Modelled from the spec: \<^verbatim>\<open>send\<close> captures the input, \<^verbatim>\<open>through\<close> sets the pipe list,
  and \<^verbatim>\<open>via\<close> runs the pipes, in array order for \<^verbatim>\<open>handle\<close> and in reverse array order
  for \<^verbatim>\<open>terminate\<close>; its result takes the callback of \<^verbatim>\<open>then\<close>.
\<close>

definition send :: "'s \<Rightarrow> ('s, 'r) pipeline" where
  "send initialState = \<lparr>passable = initialState, pipes = []\<rparr>"

definition through :: "('s, 'r) pipeline \<Rightarrow> ('s, 'r) pipe list \<Rightarrow> ('s, 'r) pipeline" where
  "through b ps = b\<lparr>pipes := ps\<rparr>"

definition via :: "('s, 'r) pipeline \<Rightarrow> direction \<Rightarrow> ('s \<Rightarrow> 'r) \<Rightarrow> 'r" where
  "via b methodName callback =
     (case methodName of
        Handle \<Rightarrow> thread pipe_handle (pipes b) (passable b) callback
      | Terminate \<Rightarrow> thread pipe_terminate (rev (pipes b)) (passable b) callback)"

text \<open>A pipe that passes a transformed state on: \<open>f\<close> on the way in, \<open>g\<close> on the way out.\<close>

definition passing :: "('s \<Rightarrow> 's) \<times> ('s \<Rightarrow> 's) \<Rightarrow> ('s, 'r) pipe" where
  "passing fg =
     \<lparr>pipe_handle = (\<lambda>state next. next (fst fg state)),
      pipe_terminate = (\<lambda>state next. next (snd fg state))\<rparr>"

text \<open>
  Modelled from the spec: the four pipes of the test, each incrementing the numeric
  \<^verbatim>\<open>state\<close> field in \<^verbatim>\<open>handle\<close> and decrementing it in \<^verbatim>\<open>terminate\<close>.
\<close>

record passable_state =
  state :: int

definition PipeA :: "(passable_state, 'r) pipe" where
  "PipeA = passing (\<lambda>obj. obj\<lparr>state := state obj + 1\<rparr>, \<lambda>obj. obj\<lparr>state := state obj - 1\<rparr>)"

definition PipeB :: "(passable_state, 'r) pipe" where
  "PipeB = passing (\<lambda>obj. obj\<lparr>state := state obj + 1\<rparr>, \<lambda>obj. obj\<lparr>state := state obj - 1\<rparr>)"

definition PipeC :: "(passable_state, 'r) pipe" where
  "PipeC = passing (\<lambda>obj. obj\<lparr>state := state obj + 1\<rparr>, \<lambda>obj. obj\<lparr>state := state obj - 1\<rparr>)"

definition PipeD :: "(passable_state, 'r) pipe" where
  "PipeD = passing (\<lambda>obj. obj\<lparr>state := state obj + 1\<rparr>, \<lambda>obj. obj\<lparr>state := state obj - 1\<rparr>)"

section \<open>The container\<close>

text \<open>
  A service provider, as the container uses one: the name of its class (the key
  under which \<^verbatim>\<open>register\<close> stores the instance), its \<^verbatim>\<open>provides\<close> list and its
  \<^verbatim>\<open>isDeferred\<close> flag. The provider classes are not part of the container: what a
  provider's \<^verbatim>\<open>register()\<close> does to the container is given as the list of \<^verbatim>\<open>bind\<close>
  calls it makes, and a call of \<^verbatim>\<open>register()\<close> or \<^verbatim>\<open>load()\<close> is recorded as an event.
  One record stands for the class and for the instance that \<^verbatim>\<open>register\<close> makes of it.
\<close>

record provider =
  pname :: string
  provides :: "string list"
  isDeferred :: bool
  registers :: "(string \<times> binding \<times> bool) list"

text \<open>
  The calls the container makes into code that is not its own: \<^verbatim>\<open>register()\<close> and
  \<^verbatim>\<open>load()\<close> of a provider (by its name), and the call \<^verbatim>\<open>construct()\<close> or
  \<^verbatim>\<open>new construct\<close> of a bound function (its text and the injected arguments),
  recorded when the code called is entered.
\<close>

datatype event = Registered string | Loaded string | Invoked string "val list"

text \<open>
  The error handler instance. \<open>handle\<close> is \<open>None\<close> when it has no callable \<^verbatim>\<open>handle\<close>,
  and otherwise gives the completion of \<^verbatim>\<open>handle(error)\<close>: the value it returns or
  the value it throws.
\<close>

record handler =
  handle :: "(val \<Rightarrow> val result) option"

text \<open>
  The fields of the class, without the leading underscore, followed by what the
  object lives in: the name of its class (read by \<^verbatim>\<open>getName(this)\<close>), the next free
  object address, the events so far, and the accessor properties that
  \<^verbatim>\<open>withOthers\<close> has put on target objects (object address and property name).
  The objects \<^verbatim>\<open>_providers\<close>, \<^verbatim>\<open>_bindings\<close>, \<^verbatim>\<open>_resolved\<close> and \<^verbatim>\<open>_sharedWith\<close> are
  given by their own keys; what a read finds under a key that is not their own is
  added where they are read. \<^verbatim>\<open>_providers\<close> keeps the order in which its keys were
  added, which \<^verbatim>\<open>Object.keys\<close> follows for class names. Debugging is off: \<^verbatim>\<open>log\<close> writes nothing, and
  only the evaluation of its arguments is modelled, where it can throw.
\<close>

record container =
  providers :: "(string \<times> provider) list"
  bindings :: "string \<rightharpoonup> binding"
  resolved :: "string \<rightharpoonup> val"
  injections :: "string list"
  shouldShare :: "string list"
  sharedWith :: "string \<rightharpoonup> nat list"
  sharable :: "string list"
  errorHandler :: "handler option"
  className :: string
  heap :: nat
  events :: "event list"
  attached :: "(nat \<times> string) list"

text \<open>\<^verbatim>\<open>new Container\<close>, when \<open>a\<close> is the next free address.\<close>

definition Container :: "nat \<Rightarrow> container" where
  "Container a =
     \<lparr>providers = [], bindings = Map.empty, resolved = Map.empty, injections = [],
      shouldShare = [], sharedWith = Map.empty, sharable = [], errorHandler = None,
      className = ''Container'', heap = a, events = [], attached = []\<rparr>"

text \<open>\<^verbatim>\<open>errorHandler(Handler)\<close>: the new handler instance is stored.\<close>

definition errorHandler_set :: "container \<Rightarrow> handler \<Rightarrow> container" where
  "errorHandler_set c h = c\<lparr>errorHandler := Some h\<rparr>"

definition handleError :: "container \<Rightarrow> val \<Rightarrow> val result" where
  "handleError c error =
     (case errorHandler c of
        Some h \<Rightarrow> (case handle h of Some f \<Rightarrow> f error | None \<Rightarrow> Throws error)
      | None \<Rightarrow> Throws error)"

text \<open>
  \<^verbatim>\<open>makeException(name, ...args)\<close> makes a new exception object with the message
  given and the name \<^verbatim>\<open>`${this.getName(this)} ${name}`\<close>; for the container
  \<^verbatim>\<open>getName\<close> finds the name of its class.
\<close>

definition makeException :: "container \<Rightarrow> string \<Rightarrow> string \<Rightarrow> val \<times> container" where
  "makeException c name message =
     (ErrorObj (heap c) (className c @ '' '' @ name) message, c\<lparr>heap := Suc (heap c)\<rparr>)"

text \<open>A \<^verbatim>\<open>TypeError\<close> raised by the language itself.\<close>

definition typeError :: "container \<Rightarrow> string \<Rightarrow> val \<times> container" where
  "typeError c message = (ErrorObj (heap c) ''TypeError'' message, c\<lparr>heap := Suc (heap c)\<rparr>)"

text \<open>
  \<^verbatim>\<open>this._providers[providerName]\<close> is set when the key is the container's own (the
  value is a provider instance) or inherited.
\<close>

definition isRegistered :: "container \<Rightarrow> string \<Rightarrow> bool" where
  "isRegistered c providerName =
     (map_of (providers c) providerName \<noteq> None \<or> inherited providerName)"

text \<open>\<^verbatim>\<open>this._bindings[alias]\<close>; \<open>None\<close> is \<^verbatim>\<open>undefined\<close>.\<close>

definition binding_of :: "container \<Rightarrow> string \<Rightarrow> binding option" where
  "binding_of c alias =
     (case bindings c alias of Some b \<Rightarrow> Some b | None \<Rightarrow> inherited_binding alias)"

definition isBound :: "container \<Rightarrow> string \<Rightarrow> bool" where
  "isBound c alias =
     (case binding_of c alias of
        Some (Concrete v) \<Rightarrow> isset v
      | Some (Callable f) \<Rightarrow> True
      | None \<Rightarrow> False)"

text \<open>\<^verbatim>\<open>getInstance(alias)\<close> returns \<^verbatim>\<open>this._resolved[alias]\<close>.\<close>

definition getInstance :: "container \<Rightarrow> string \<Rightarrow> val" where
  "getInstance c alias =
     (case resolved c alias of
        Some v \<Rightarrow> v
      | None \<Rightarrow> (if inherited alias then Inherited alias else Undefined))"

definition isResolved :: "container \<Rightarrow> string \<Rightarrow> bool" where
  "isResolved c alias = isset (getInstance c alias)"

definition canShare :: "container \<Rightarrow> string \<Rightarrow> bool" where
  "canShare c alias = (alias \<in> set (sharable c))"

text \<open>The getter \<^verbatim>\<open>sharable\<close>.\<close>

definition sharable_get :: "container \<Rightarrow> string list" where
  "sharable_get c = filter (\<lambda>entry. isBound c entry) (sharable c)"

subsection \<open>Binding and caching\<close>

definition bind :: "container \<Rightarrow> string \<Rightarrow> binding \<Rightarrow> bool \<Rightarrow> container" where
  "bind c alias binding shared =
     c\<lparr>bindings := put alias binding (bindings c),
       sharable := (if shared \<and> alias \<notin> set (sharable c) then sharable c @ [alias]
                    else sharable c)\<rparr>"

definition setInstance :: "container \<Rightarrow> string \<Rightarrow> val \<Rightarrow> bool \<Rightarrow> val \<times> container" where
  "setInstance c alias concrete shared =
     (concrete,
      c\<lparr>resolved := put alias concrete (resolved c),
        sharable := (if shared \<and> alias \<notin> set (sharable c) then sharable c @ [alias]
                     else sharable c)\<rparr>)"

text \<open>
  \<^verbatim>\<open>_destroyReference(alias, obj)\<close> deletes the key only \<^verbatim>\<open>if (obj[alias])\<close>: when the
  value under it is truthy. \<open>t\<close> is the truth value of the values of the map. For a
  key that is not the object's own and names an inherited function, \<^verbatim>\<open>obj[alias] = null\<close>
  makes an own property and \<^verbatim>\<open>delete\<close> takes it away again: nothing changes (for
  \<^verbatim>\<open>__proto__\<close> see \<open>put\<close>).
\<close>

definition destroyReference :: "('a \<Rightarrow> bool) \<Rightarrow> string \<Rightarrow> (string \<rightharpoonup> 'a) \<Rightarrow> (string \<rightharpoonup> 'a)" where
  "destroyReference t alias obj =
     (case obj alias of
        Some v \<Rightarrow> (if t v then obj(alias := None) else obj)
      | None \<Rightarrow> obj)"

fun truthy_binding :: "binding \<Rightarrow> bool" where
  "truthy_binding (Concrete v) = truthy v"
| "truthy_binding (Callable f) = True"

subsection \<open>Sharing with other objects\<close>

definition toLowerCase :: "char \<Rightarrow> char" where
  "toLowerCase ch =
     (let n = (of_char ch :: nat)
      in if (65 \<le> n \<and> n \<le> 90) \<or> (192 \<le> n \<and> n \<le> 222 \<and> n \<noteq> 215) then char_of (n + 32)
         else ch)"

text \<open>
  \<^verbatim>\<open>getSharedAliasName(alias)\<close>; \<open>None\<close> is the \<^verbatim>\<open>TypeError\<close> of \<^verbatim>\<open>alias[0].toLowerCase()\<close>
  on the empty string. \<open>toLowerCase\<close> maps the capital letters among the code units
  below 256: \<^verbatim>\<open>A\<close> to \<^verbatim>\<open>Z\<close> and the accented capitals of Latin-1.
\<close>

definition getSharedAliasName :: "string \<Rightarrow> string option" where
  "getSharedAliasName alias =
     (case alias of [] \<Rightarrow> None | x # xs \<Rightarrow> Some (CHR ''$'' # toLowerCase x # xs))"

fun unShare_each :: "string \<Rightarrow> nat list \<Rightarrow> container \<Rightarrow> unit result \<times> container" where
  "unShare_each alias [] c = (Returns (), c)"
| "unShare_each alias (object # objects) c =
     (case getSharedAliasName alias of
        None \<Rightarrow> (let (e, c1) = typeError c ''Cannot read properties of undefined'' in (Throws e, c1))
      | Some name \<Rightarrow>
          unShare_each alias objects
            (c\<lparr>attached := filter (\<lambda>p. p \<noteq> (object, name)) (attached c)\<rparr>))"

text \<open>
  \<^verbatim>\<open>unShare(alias)\<close> returns at once when \<^verbatim>\<open>this._sharedWith[alias]\<close> is falsy. Under a
  key of its own the object has a list; under an inherited name that is not its
  own it finds a value that is truthy and has no \<^verbatim>\<open>forEach\<close>, and the call throws.
\<close>

definition unShare :: "container \<Rightarrow> string \<Rightarrow> unit result \<times> container" where
  "unShare c alias =
     (case sharedWith c alias of
        None \<Rightarrow>
          (if inherited alias then
             (let (e, c1) = typeError c ''this._sharedWith[alias].forEach is not a function''
              in (Throws e, c1))
           else (Returns (), c))
      | Some objects \<Rightarrow>
          (case unShare_each alias objects c of
             (Throws e, c1) \<Rightarrow> (Throws e, c1)
           | (Returns u, c1) \<Rightarrow> (Returns (), c1\<lparr>sharedWith := (sharedWith c1)(alias := None)\<rparr>)))"

definition isShared :: "container \<Rightarrow> string \<Rightarrow> bool" where
  "isShared c alias = (case sharedWith c alias of Some objects \<Rightarrow> objects \<noteq> [] | None \<Rightarrow> False)"

subsection \<open>Destroying and unbinding\<close>

definition destroy :: "container \<Rightarrow> string \<Rightarrow> bool result \<times> container" where
  "destroy c alias =
     (if isResolved c alias then
        (case unShare c alias of
           (Throws e, c1) \<Rightarrow> (Throws e, c1)
         | (Returns u, c1) \<Rightarrow>
             (Returns True, c1\<lparr>resolved := destroyReference truthy alias (resolved c1)\<rparr>))
      else (Returns False, c))"

text \<open>
  \<^verbatim>\<open>splice(indexOf(alias), 1)\<close> takes the first occurrence out; \<^verbatim>\<open>unBind\<close> guards it
  with \<^verbatim>\<open>includes\<close>.
\<close>

definition unBind :: "container \<Rightarrow> string \<Rightarrow> unit result \<times> container" where
  "unBind c alias =
     (case destroy c alias of
        (Throws e, c1) \<Rightarrow> (Throws e, c1)
      | (Returns d, c1) \<Rightarrow>
          (Returns (),
           c1\<lparr>bindings := destroyReference truthy_binding alias (bindings c1),
              sharable := (if alias \<in> set (sharable c1) then remove1 alias (sharable c1)
                           else sharable c1)\<rparr>))"

text \<open>
  \<^verbatim>\<open>share(...aliases)\<close>: inside \<^verbatim>\<open>forEach\<close>, \<^verbatim>\<open>return this.handleError(...)\<close> only leaves
  the callback, so after a handled error the loop goes on with the next alias, and
  an error that is not handled ends the call. \<^verbatim>\<open>makeException\<close> gets the text as its
  first argument here, the name, and no message.
\<close>

fun share_each :: "string list \<Rightarrow> container \<Rightarrow> unit result \<times> container" where
  "share_each [] c = (Returns (), c)"
| "share_each (alias # aliases) c =
     (if \<not> isBound c alias then
        (let (e, c1) = makeException c (''No binding for '' @ alias @ '' available to share.'') []
         in case handleError c1 e of
              Throws x \<Rightarrow> (Throws x, c1)
            | Returns v \<Rightarrow> share_each aliases c1)
      else if \<not> canShare c alias then
        (let (e, c1) = makeException c (alias @ '' is not sharable.'') []
         in case handleError c1 e of
              Throws x \<Rightarrow> (Throws x, c1)
            | Returns v \<Rightarrow> share_each aliases c1)
      else share_each aliases
             (c\<lparr>shouldShare := (if alias \<in> set (shouldShare c) then shouldShare c
                                 else shouldShare c @ [alias])\<rparr>))"

definition share :: "container \<Rightarrow> string list \<Rightarrow> unit result \<times> container" where
  "share c aliases = share_each aliases (c\<lparr>shouldShare := []\<rparr>)"

text \<open>
  \<^verbatim>\<open>withOthers(...instances)\<close>: for each staged alias and each target object, the
  list of the alias is created when it is missing, and an object that is not in it
  yet gets the accessor and is pushed. Under an inherited name that is not its own,
  \<^verbatim>\<open>this._sharedWith[alias]\<close> is truthy and has no \<^verbatim>\<open>includes\<close>, and the call throws.
\<close>

fun withOthers_objects :: "string \<Rightarrow> nat list \<Rightarrow> container \<Rightarrow> unit result \<times> container" where
  "withOthers_objects alias [] c = (Returns (), c)"
| "withOthers_objects alias (object # objects) c =
     (if sharedWith c alias = None \<and> inherited alias then
        (let (e, c1) = typeError c ''sharedList.includes is not a function'' in (Throws e, c1))
      else
        (let sharedList = (case sharedWith c alias of Some l \<Rightarrow> l | None \<Rightarrow> []);
             c0 = c\<lparr>sharedWith := (sharedWith c)(alias \<mapsto> sharedList)\<rparr>
         in if object \<notin> set sharedList then
              (case getSharedAliasName alias of
                 None \<Rightarrow>
                   (let (e, c1) = typeError c0 ''Cannot read properties of undefined''
                    in (Throws e, c1))
               | Some name \<Rightarrow>
                   withOthers_objects alias objects
                     (c0\<lparr>attached := List.insert (object, name) (attached c0),
                         sharedWith := (sharedWith c0)(alias \<mapsto> sharedList @ [object])\<rparr>))
            else withOthers_objects alias objects c0))"

fun withOthers_aliases :: "string list \<Rightarrow> nat list \<Rightarrow> container \<Rightarrow> unit result \<times> container" where
  "withOthers_aliases [] instances c = (Returns (), c)"
| "withOthers_aliases (alias # aliases) instances c =
     (case withOthers_objects alias instances c of
        (Throws e, c1) \<Rightarrow> (Throws e, c1)
      | (Returns u, c1) \<Rightarrow> withOthers_aliases aliases instances c1)"

definition withOthers :: "container \<Rightarrow> nat list \<Rightarrow> unit result \<times> container" where
  "withOthers c instances =
     (case (if shouldShare c \<noteq> [] then withOthers_aliases (shouldShare c) instances c
            else (Returns (), c)) of
        (Throws e, c1) \<Rightarrow> (Throws e, c1)
      | (Returns u, c1) \<Rightarrow> (Returns (), c1\<lparr>shouldShare := []\<rparr>))"

subsection \<open>Service providers\<close>

text \<open>
  \<^verbatim>\<open>this._providers[providerName] = ...\<close>: a key that exists keeps its place, a new key
  goes to the end, and \<^verbatim>\<open>__proto__\<close> makes no key.
\<close>

fun assign :: "string \<Rightarrow> 'a \<Rightarrow> (string \<times> 'a) list \<Rightarrow> (string \<times> 'a) list" where
  "assign k v [] = [(k, v)]"
| "assign k v (p # ps) = (if fst p = k then (k, v) # ps else p # assign k v ps)"

definition register :: "container \<Rightarrow> provider \<Rightarrow> container" where
  "register c ServiceProvider =
     (if pname ServiceProvider = ''__proto__'' then c
      else c\<lparr>providers := assign (pname ServiceProvider) ServiceProvider (providers c)\<rparr>)"

text \<open>The provider's \<^verbatim>\<open>register()\<close> and \<^verbatim>\<open>load()\<close>, called by the container.\<close>

definition provider_register :: "provider \<Rightarrow> container \<Rightarrow> container" where
  "provider_register p c =
     fold (\<lambda>(alias, binding, shared) c'. bind c' alias binding shared) (registers p)
       (c\<lparr>events := events c @ [Registered (pname p)]\<rparr>)"

definition provider_load :: "provider \<Rightarrow> container \<Rightarrow> container" where
  "provider_load p c = c\<lparr>events := events c @ [Loaded (pname p)]\<rparr>"

definition bootProvider :: "container \<Rightarrow> provider \<Rightarrow> container" where
  "bootProvider c ProviderInstance = provider_load ProviderInstance c"

definition bootProviders :: "container \<Rightarrow> container" where
  "bootProviders c =
     (let ps = map snd (providers c);
          c1 = fold provider_register ps c
      in fold (\<lambda>providerInstance c'.
                 if \<not> isDeferred providerInstance then bootProvider c' providerInstance else c')
           ps c1)"

definition findProvider :: "container \<Rightarrow> string \<Rightarrow> provider option" where
  "findProvider c alias =
     find (\<lambda>providerInstance. alias \<in> set (provides providerInstance)) (map snd (providers c))"

subsection \<open>Instantiation\<close>

text \<open>
  \<^verbatim>\<open>isClass(abstract)\<close>, for the function that \<^verbatim>\<open>_makeConcrete\<close> passes: its displayed
  name is not literally \<^verbatim>\<open>Function\<close>.
\<close>

definition isClass :: "callable \<Rightarrow> bool" where
  "isClass abstract = (getName abstract \<noteq> ''Function'')"

text \<open>
  The first statements of the \<^verbatim>\<open>try\<close> block of \<^verbatim>\<open>_makeConcrete\<close>. The function is
  bound with the injections by \<^verbatim>\<open>Object.create(binding.constructor).bind.apply\<close>, which
  throws a \<^verbatim>\<open>TypeError\<close> when the constructor is \<^verbatim>\<open>undefined\<close>; then comes the call
  \<^verbatim>\<open>construct()\<close> or \<^verbatim>\<open>new construct\<close>. A plain call runs the body with \<^verbatim>\<open>this\<close> bound
  to \<^verbatim>\<open>null\<close>; \<^verbatim>\<open>new\<close> fails with a \<^verbatim>\<open>TypeError\<close> on a function that is no constructor,
  and otherwise runs the body on a new object, which is the result unless the body
  returns an object.
\<close>

definition invoke :: "container \<Rightarrow> callable \<Rightarrow> val list \<Rightarrow> val result \<times> container" where
  "invoke c binding injs =
     (if ctor_name binding = None then
        (let (e, c1) = typeError c ''Object prototype may only be an Object or null: undefined''
         in (Throws e, c1))
      else if isClass binding \<and> \<not> constructible binding then
        (let (e, c1) = typeError c ''construct is not a constructor'' in (Throws e, c1))
      else
        (let c0 = c\<lparr>events := events c @ [Invoked (source binding) injs]\<rparr>
         in if \<not> isClass binding then
              (let (r, k) = body binding Null injs (heap c0)
               in (r, c0\<lparr>heap := heap c0 + k\<rparr>))
            else
              (let this = Obj (heap c0);
                   (r, k) = body binding this injs (Suc (heap c0));
                   c1 = c0\<lparr>heap := Suc (heap c0) + k\<rparr>
               in case r of
                    Returns v \<Rightarrow> (Returns (if isObject v then v else this), c1)
                  | Throws e \<Rightarrow> (Throws e, c1))))"

text \<open>
  \<^verbatim>\<open>_makeConcrete(binding, injections)\<close>. Everything between \<^verbatim>\<open>try\<close> and \<^verbatim>\<open>catch\<close> that
  throws ends in \<^verbatim>\<open>handleError\<close>: the invocation, and the \<^verbatim>\<open>getName(concrete)\<close> in the
  argument of \<^verbatim>\<open>log\<close>, which reads \<^verbatim>\<open>concrete.name\<close> and so throws on \<^verbatim>\<open>null\<close>. For
  \<^verbatim>\<open>undefined\<close> the exception made is the value returned.
\<close>

definition makeConcrete :: "container \<Rightarrow> callable \<Rightarrow> val list \<Rightarrow> val result \<times> container" where
  "makeConcrete c binding injs =
     (case invoke c binding injs of
        (Throws e, c1) \<Rightarrow> (handleError c1 e, c1)
      | (Returns concrete, c1) \<Rightarrow>
          (if concrete = Undefined then
             (let (e, c2) = makeException c1 ''Binding Exception''
                              (''Binding '' @ source binding @ '' failed, return value is undefined.'')
              in (Returns e, c2))
           else if concrete = Null then
             (let (e, c2) = typeError c1 ''Cannot read properties of null''
              in (handleError c2 e, c2))
           else (Returns concrete, c1)))"

subsection \<open>Resolution\<close>

text \<open>
  \<^verbatim>\<open>_resolve\<close> calls itself through \<^verbatim>\<open>_resolveIfNotResolved\<close> and the loop of
  \<^verbatim>\<open>_prepareForInjection\<close>. The functions below take the resolver \<open>R\<close> that stands
  for the inner call of \<^verbatim>\<open>_resolve\<close>; \<open>resolve\<close> then closes the recursion, with the
  depth of nested calls as fuel. \<open>None\<close> means that the fuel ran out.
\<close>

type_synonym resolver = "container \<Rightarrow> string \<Rightarrow> bool \<Rightarrow> (val result \<times> container) option"

text \<open>\<^verbatim>\<open>this._injections.join(', ')\<close>.\<close>

fun join :: "string list \<Rightarrow> string" where
  "join [] = []"
| "join [x] = x"
| "join (x # y # ys) = x @ '', '' @ join (y # ys)"

text \<open>
  \<^verbatim>\<open>xs.splice(xs.indexOf(x), 1)\<close>: the first occurrence of \<open>x\<close> goes; when there is
  none, \<^verbatim>\<open>indexOf\<close> is \<open>-1\<close> and the last element goes.
\<close>

definition splice_indexOf :: "'a \<Rightarrow> 'a list \<Rightarrow> 'a list" where
  "splice_indexOf x xs = (if x \<in> set xs then remove1 x xs else butlast xs)"

text \<open>The callback of \<^verbatim>\<open>dependencies.forEach\<close> in \<^verbatim>\<open>_prepareForInjection\<close>, run along the list.\<close>

fun prepareForInjection_each ::
  "resolver \<Rightarrow> string \<Rightarrow> string list \<Rightarrow> val list \<Rightarrow> container \<Rightarrow> (val list result \<times> container) option" where
  "prepareForInjection_each R alias [] injs c = Some (Returns injs, c)"
| "prepareForInjection_each R alias (dependency # rest) injs c =
     (if dependency \<in> set (injections c) then
        (let (e, c1) = makeException c ''Circular Dependency Exception''
                         (alias @ '' requires '' @ join (injections c))
         in Some (Throws e, c1))
      else
        (case R (c\<lparr>injections := injections c @ [dependency]\<rparr>) dependency False of
           None \<Rightarrow> None
         | Some (Throws e, c1) \<Rightarrow> Some (Throws e, c1)
         | Some (Returns v, c1) \<Rightarrow>
             prepareForInjection_each R alias rest (injs @ [v])
               (c1\<lparr>injections := splice_indexOf dependency (injections c1)\<rparr>)))"

definition prepareForInjection ::
  "resolver \<Rightarrow> container \<Rightarrow> string \<Rightarrow> binding \<Rightarrow> (val list result \<times> container) option" where
  "prepareForInjection R c alias instance =
     (case instance of
        Callable f \<Rightarrow> prepareForInjection_each R alias (readArguments (source f)) [] c
      | Concrete v \<Rightarrow> Some (Returns [], c))"

definition resolveIfNotResolved ::
  "resolver \<Rightarrow> container \<Rightarrow> string \<Rightarrow> (val result \<times> container) option" where
  "resolveIfNotResolved R c alias =
     (case binding_of c alias of
        Some (Callable f) \<Rightarrow>
          (case prepareForInjection R c alias (Callable f) of
             None \<Rightarrow> None
           | Some (Throws e, c1) \<Rightarrow> Some (Throws e, c1)
           | Some (Returns injs, c1) \<Rightarrow> Some (makeConcrete c1 f injs))
      | Some (Concrete v) \<Rightarrow> Some (Returns v, c)
      | None \<Rightarrow> Some (Returns Undefined, c))"

text \<open>
  The step of \<^verbatim>\<open>_resolve\<close> between the check of the binding and the resolution:
  the first provider that provides the alias is booted if it is deferred.
\<close>

definition bootDeferred :: "container \<Rightarrow> string \<Rightarrow> container" where
  "bootDeferred c alias =
     (case findProvider c alias of
        Some providerInstance \<Rightarrow>
          (if isDeferred providerInstance then bootProvider c providerInstance else c)
      | None \<Rightarrow> c)"

text \<open>
  \<^verbatim>\<open>_resolve\<close> from the check of the binding on: the failure for an unbound alias,
  the deferred boot, the resolution, and the caching of a sharable alias.
\<close>

definition resolve_rest ::
  "resolver \<Rightarrow> container \<Rightarrow> string \<Rightarrow> (val result \<times> container) option" where
  \<open>resolve_rest R c alias =
     (if \<not> isBound c alias then
        (let (e, c1) = makeException c ''Binding Exception''
                         (''No Binding found for "'' @ alias @ ''".'')
         in Some (handleError c1 e, c1))
      else
        (let c2 = bootDeferred c alias
         in case resolveIfNotResolved R c2 alias of
              None \<Rightarrow> None
            | Some (Throws e, c3) \<Rightarrow> Some (Throws e, c3)
            | Some (Returns instance, c3) \<Rightarrow>
                (if canShare c3 alias then
                   Some (Returns instance, snd (setInstance c3 alias instance True))
                 else Some (Returns instance, c3))))\<close>

text \<open>
  \<^verbatim>\<open>_resolve(alias, rebound)\<close>: the cached instance of a sharable alias is returned
  at once; a forced rebound destroys the cached instance first.
\<close>

definition resolve_body :: "resolver \<Rightarrow> resolver" where
  "resolve_body R c alias rebound =
     (if isResolved c alias \<and> canShare c alias \<and> \<not> rebound then
        Some (Returns (getInstance c alias), c)
      else
        (case (if rebound then destroy c alias else (Returns False, c)) of
           (Throws e, c1) \<Rightarrow> Some (Throws e, c1)
         | (Returns d, c1) \<Rightarrow> resolve_rest R c1 alias))"

primrec resolve :: "nat \<Rightarrow> resolver" where
  "resolve 0 = (\<lambda>c alias rebound. None)"
| "resolve (Suc n) = resolve_body (resolve n)"

definition make :: "nat \<Rightarrow> container \<Rightarrow> string \<Rightarrow> (val result \<times> container) option" where
  "make n c alias = resolve n c alias False"

definition rebound :: "nat \<Rightarrow> container \<Rightarrow> string \<Rightarrow> (val result \<times> container) option" where
  "rebound n c alias = resolve n c alias True"

section \<open>The public operations\<close>

text \<open>
  The calls a program can make on a container, and the container each leaves
  behind, whether the call returned or threw. \<open>None\<close>: the fuel of a resolution
  ran out.
\<close>

datatype op =
    Bind string binding bool
  | UnBind string
  | SetInstance string val bool
  | Destroy string
  | Make string
  | Rebound string
  | Register provider
  | BootProviders
  | Share "string list"
  | WithOthers "nat list"
  | UnShare string
  | ErrorHandler handler

fun exec :: "nat \<Rightarrow> op \<Rightarrow> container \<Rightarrow> container option" where
  "exec n (Bind alias binding shared) c = Some (bind c alias binding shared)"
| "exec n (UnBind alias) c = Some (snd (unBind c alias))"
| "exec n (SetInstance alias concrete shared) c = Some (snd (setInstance c alias concrete shared))"
| "exec n (Destroy alias) c = Some (snd (destroy c alias))"
| "exec n (Make alias) c = map_option snd (make n c alias)"
| "exec n (Rebound alias) c = map_option snd (rebound n c alias)"
| "exec n (Register ServiceProvider) c = Some (register c ServiceProvider)"
| "exec n BootProviders c = Some (bootProviders c)"
| "exec n (Share aliases) c = Some (snd (share c aliases))"
| "exec n (WithOthers instances) c = Some (snd (withOthers c instances))"
| "exec n (UnShare alias) c = Some (snd (unShare c alias))"
| "exec n (ErrorHandler h) c = Some (errorHandler_set c h)"

text \<open>Whether an operation is a call of \<^verbatim>\<open>unBind\<close>.\<close>

fun isUnBind :: "op \<Rightarrow> bool" where
  "isUnBind (UnBind alias) = True"
| "isUnBind other = False"

section \<open>Properties of containers and of resolutions\<close>



text \<open>The invocations of bound functions among the events.\<close>

fun isInvoked :: "event \<Rightarrow> bool" where
  "isInvoked (Invoked text injs) = True"
| "isInvoked e = False"

definition invocations :: "container \<Rightarrow> event list" where
  "invocations c = filter isInvoked (events c)"





text \<open>
  \<open>frame c c'\<close>: between \<open>c\<close> and \<open>c'\<close> the providers, the bindings, the sharable
  list, the error handler and the class name are the same, no address was given
  back, and the events of \<open>c\<close> are the first events of \<open>c'\<close>.
\<close>

definition frame :: "container \<Rightarrow> container \<Rightarrow> bool" where
  "frame c c' =
     (providers c' = providers c \<and> bindings c' = bindings c \<and> sharable c' = sharable c
      \<and> errorHandler c' = errorHandler c \<and> className c' = className c
      \<and> heap c \<le> heap c' \<and> prefix (events c) (events c'))"

text \<open>
  \<open>frame_make c c'\<close>: moreover the sharing state is the same, and the resolved map
  has lost no key and differs at sharable aliases only.
\<close>

definition frame_make :: "container \<Rightarrow> container \<Rightarrow> bool" where
  "frame_make c c' =
     (frame c c' \<and> shouldShare c' = shouldShare c \<and> sharedWith c' = sharedWith c
      \<and> attached c' = attached c
      \<and> (\<forall>a. a \<notin> set (sharable c) \<longrightarrow> resolved c' a = resolved c a)
      \<and> (\<forall>a. resolved c a \<noteq> None \<longrightarrow> resolved c' a \<noteq> None))"

text \<open>\<open>keeps c r c'\<close>: moreover a call that returned has put the injection stack back.\<close>

definition keeps :: "container \<Rightarrow> 'a result \<Rightarrow> container \<Rightarrow> bool" where
  "keeps c r c' =
     (frame_make c c' \<and> (case r of Returns v \<Rightarrow> injections c' = injections c | Throws e \<Rightarrow> True))"

text \<open>\<open>good R\<close>: every inner resolution through \<open>R\<close> keeps all of that.\<close>

definition good :: "resolver \<Rightarrow> bool" where
  "good R = (\<forall>c a r c'. R c a False = Some (r, c') \<longrightarrow> keeps c r c')"

text \<open>
  \<open>grow c c'\<close>: the bindings are the same, and what is resolved in \<open>c'\<close> was resolved
  or bound in \<open>c\<close>.
\<close>

definition grow :: "container \<Rightarrow> container \<Rightarrow> bool" where
  "grow c c' =
     (bindings c' = bindings c \<and> (\<forall>x. isResolved c' x \<longrightarrow> isResolved c x \<or> isBound c x))"



section \<open>Example bindings and containers\<close>

text \<open>\<^verbatim>\<open>function () {}\<close>: anonymous, so called without \<^verbatim>\<open>new\<close>; it returns \<^verbatim>\<open>undefined\<close>.\<close>

definition fn_empty :: callable where
  "fn_empty =
     \<lparr>source = ''function () {}'', fn_name = [], proto_name = [], ctor_name = Some ''Function'',
      constructible = True, body = (\<lambda>this args a. (Returns Undefined, 0))\<rparr>"

text \<open>\<^verbatim>\<open>function Service() {}\<close>: named, so called with \<^verbatim>\<open>new\<close>.\<close>

definition fn_Service :: callable where
  "fn_Service =
     \<lparr>source = ''function Service() {}'', fn_name = ''Service'', proto_name = [],
      ctor_name = Some ''Function'', constructible = True,
      body = (\<lambda>this args a. (Returns Undefined, 0))\<rparr>"

text \<open>\<^verbatim>\<open>function A(B) {}\<close> and \<^verbatim>\<open>function B(A) {}\<close>: each asks for the other.\<close>

definition fn_A :: callable where
  "fn_A =
     \<lparr>source = ''function A(B) {}'', fn_name = ''A'', proto_name = [],
      ctor_name = Some ''Function'', constructible = True,
      body = (\<lambda>this args a. (Returns Undefined, 0))\<rparr>"

definition fn_B :: callable where
  "fn_B =
     \<lparr>source = ''function B(A) {}'', fn_name = ''B'', proto_name = [],
      ctor_name = Some ''Function'', constructible = True,
      body = (\<lambda>this args a. (Returns Undefined, 0))\<rparr>"

text \<open>\<^verbatim>\<open>function () { throw 1 }\<close>.\<close>

definition fn_throws :: callable where
  "fn_throws =
     \<lparr>source = ''function () { throw 1 }'', fn_name = [], proto_name = [],
      ctor_name = Some ''Function'', constructible = True,
      body = (\<lambda>this args a. (Throws (Num 1), 0))\<rparr>"

text \<open>A container in which \<^verbatim>\<open>make('Service')\<close> has cached an instance of \<^verbatim>\<open>Service\<close>.\<close>

definition resolved_Service :: container where
  "resolved_Service =
     (case make 1 (bind (Container 0) ''Service'' (Callable fn_Service) True) ''Service'' of
        Some (r, c) \<Rightarrow> c
      | None \<Rightarrow> Container 0)"


text \<open>\<^verbatim>\<open>Service\<close> bound as shared and as not shared in a new container, and the latter after one
  and after two calls of \<^verbatim>\<open>make('Service')\<close>.\<close>

definition shared_Service :: container where
  "shared_Service = bind (Container 0) ''Service'' (Callable fn_Service) True"




text \<open>The container after \<^verbatim>\<open>unBind('Service')\<close> on the shared binding.\<close>

definition unbound_Service :: container where
  "unbound_Service = snd (unBind shared_Service ''Service'')"

text \<open>A handler whose \<^verbatim>\<open>handle\<close> returns \<^verbatim>\<open>null\<close> for every error.\<close>

definition handler_null :: handler where
  "handler_null = \<lparr>handle = Some (\<lambda>error. Returns Null)\<rparr>"

text \<open>The two bindings that ask for each other, in a new container.\<close>

definition circular_AB :: container where
  "circular_AB =
     bind (bind (Container 0) ''A'' (Callable fn_A) True) ''B'' (Callable fn_B) True"

text \<open>\<^verbatim>\<open>function () { throw 1 }\<close> bound to \<^verbatim>\<open>T\<close> in a container with the handler installed,
  and the two bindings that ask for each other while \<^verbatim>\<open>B\<close> is being resolved.\<close>

definition handled_T :: container where
  "handled_T = errorHandler_set (bind (Container 0) ''T'' (Callable fn_throws) True) handler_null"

definition in_flight_B :: container where
  "in_flight_B = (errorHandler_set circular_AB handler_null)\<lparr>injections := [''B'']\<rparr>"
















text \<open>A handler instance without a \<^verbatim>\<open>handle\<close> function, installed in a new container.\<close>

definition handler_mute :: handler where
  "handler_mute = \<lparr>handle = None\<rparr>"

definition muted :: container where
  "muted = errorHandler_set (Container 0) handler_mute"

text \<open>A new container after \<^verbatim>\<open>bind('__proto__', 5)\<close>.\<close>

definition proto_bound :: container where
  "proto_bound = bind (Container 0) ''__proto__'' (Concrete (Num 5)) True"

section \<open>Resolution keeps the frame\<close>

lemmas lookup_defs =
  binding_of_def inherited_binding_def inherited_def object_prototype_names_def put_def
  getInstance_def

lemma frame_refl [simp]: "frame c c"
  by (simp add: frame_def)

lemma frame_trans: "frame c c1 \<Longrightarrow> frame c1 c2 \<Longrightarrow> frame c c2"
  unfolding frame_def by (metis order_trans prefix_order.order_trans)

lemma frame_make_refl [simp]: "frame_make c c"
  by (simp add: frame_make_def)

lemma frame_make_trans: "frame_make c c1 \<Longrightarrow> frame_make c1 c2 \<Longrightarrow> frame_make c c2"
  unfolding frame_make_def using frame_trans by (auto simp: frame_def)

lemma frame_make_frame: "frame_make c c' \<Longrightarrow> frame c c'"
  by (simp add: frame_make_def)

lemma makeException_frame: "makeException c n m = (e, c') \<Longrightarrow> frame_make c c' \<and> injections c' = injections c"
  by (auto simp: makeException_def frame_make_def frame_def)

lemma typeError_frame: "typeError c m = (e, c') \<Longrightarrow> frame_make c c' \<and> injections c' = injections c"
  by (auto simp: typeError_def frame_make_def frame_def)

lemma bootProvider_frame: "frame_make c (bootProvider c p) \<and> injections (bootProvider c p) = injections c"
  by (simp add: bootProvider_def provider_load_def frame_make_def frame_def)

lemma invoke_frame: "invoke c f injs = (r, c') \<Longrightarrow> frame_make c c' \<and> injections c' = injections c"
  by (auto simp: invoke_def Let_def typeError_def frame_make_def frame_def split: prod.splits if_splits result.splits)

lemma makeConcrete_frame:
  assumes "makeConcrete c f injs = (r, c')"
  shows "frame_make c c' \<and> injections c' = injections c"
proof -
  obtain r1 c1 where i: "invoke c f injs = (r1, c1)" by (cases "invoke c f injs")
  from invoke_frame [OF i] have f1: "frame_make c c1" and j1: "injections c1 = injections c" by simp_all
  have "frame_make c1 c' \<and> injections c' = injections c1"
    using assms i
    by (auto simp: makeConcrete_def makeException_def typeError_def frame_make_def frame_def
             split: result.splits if_splits)
  with f1 j1 show ?thesis using frame_make_trans by auto
qed

lemma setInstance_frame:
  "canShare c alias \<Longrightarrow> frame_make c (snd (setInstance c alias v s)) \<and> injections (snd (setInstance c alias v s)) = injections c"
  by (auto simp: setInstance_def canShare_def frame_make_def frame_def put_def)


lemma unShare_each_frame:
  "unShare_each alias objs c = (r, c') \<Longrightarrow> frame c c' \<and> injections c' = injections c \<and> resolved c' = resolved c"
proof (induction objs arbitrary: c)
  case Nil
  then show ?case by simp
next
  case (Cons object objects)
  show ?case
  proof (cases "getSharedAliasName alias")
    case None
    with Cons.prems show ?thesis by (auto simp: typeError_def frame_def)
  next
    case (Some name)
    with Cons.prems have
      "unShare_each alias objects (c\<lparr>attached := filter (\<lambda>p. p \<noteq> (object, name)) (attached c)\<rparr>) = (r, c')"
      by simp
    from Cons.IH [OF this] show ?thesis by (simp add: frame_def)
  qed
qed

lemma unShare_frame:
  "unShare c alias = (r, c') \<Longrightarrow> frame c c' \<and> injections c' = injections c \<and> resolved c' = resolved c"
  by (auto simp: unShare_def frame_def typeError_def
           split: option.splits prod.splits result.splits if_splits
           dest!: unShare_each_frame)

lemma destroy_frame:
  "destroy c alias = (r, c') \<Longrightarrow> frame c c' \<and> injections c' = injections c"
  by (auto simp: destroy_def frame_def split: if_splits prod.splits result.splits
           dest!: unShare_frame)

lemma splice_indexOf_pushed:
  "d \<notin> set xs \<Longrightarrow> splice_indexOf d (xs @ [d]) = xs"
  by (simp add: splice_indexOf_def remove1_append)

lemma each_keeps:
  assumes R: "good R"
  shows "prepareForInjection_each R alias deps injs c = Some (r, c') \<Longrightarrow> keeps c r c'"
proof (induction deps arbitrary: injs c)
  case Nil
  then show ?case by (auto simp: keeps_def)
next
  case (Cons d ds)
  show ?case
  proof (cases "d \<in> set (injections c)")
    case True
    with Cons.prems show ?thesis
      by (auto simp: keeps_def makeException_def frame_make_def frame_def)
  next
    case False
    let ?c0 = "c\<lparr>injections := injections c @ [d]\<rparr>"
    from Cons.prems False obtain r1 c1 where r1: "R ?c0 d False = Some (r1, c1)"
      by (auto split: option.splits)
    from R r1 have k1: "keeps ?c0 r1 c1" by (auto simp: good_def)
    have f0: "frame_make c ?c0" by (simp add: frame_make_def frame_def)
    show ?thesis
    proof (cases r1)
      case (Throws e)
      with Cons.prems False r1 have "r = Throws e" "c' = c1" by auto
      with k1 f0 show ?thesis using frame_make_trans by (auto simp: keeps_def)
    next
      case (Returns v)
      let ?c2 = "c1\<lparr>injections := splice_indexOf d (injections c1)\<rparr>"
      from Returns k1 have j1: "injections c1 = injections c @ [d]" by (simp add: keeps_def)
      have j2: "injections ?c2 = injections c" using j1 False by (simp add: splice_indexOf_pushed)
      have f2: "frame_make c ?c2"
        using k1 f0 frame_make_trans [OF f0, of c1] by (auto simp: keeps_def frame_make_def frame_def)
      from Cons.prems False r1 Returns
      have "prepareForInjection_each R alias ds (injs @ [v]) ?c2 = Some (r, c')" by simp
      from Cons.IH [OF this] have k3: "keeps ?c2 r c'" .
      with f2 j2 show ?thesis using frame_make_trans by (auto simp: keeps_def split: result.splits)
    qed
  qed
qed

lemma resolveIfNotResolved_keeps:
  assumes R: "good R" and "resolveIfNotResolved R c alias = Some (r, c')"
  shows "keeps c r c'"
proof (cases "binding_of c alias")
  case None
  with assms show ?thesis by (auto simp: resolveIfNotResolved_def keeps_def)
next
  case (Some b)
  show ?thesis
  proof (cases b)
    case (Concrete v)
    with Some assms show ?thesis by (auto simp: resolveIfNotResolved_def keeps_def)
  next
    case (Callable f)
    with Some assms(2) obtain r1 c1 where
      p: "prepareForInjection_each R alias (readArguments (source f)) [] c = Some (r1, c1)"
      by (auto simp: resolveIfNotResolved_def prepareForInjection_def split: option.splits)
    from each_keeps [OF R p] have k1: "keeps c r1 c1" .
    show ?thesis
    proof (cases r1)
      case (Throws e)
      with p Some Callable assms(2) k1 show ?thesis
        by (auto simp: resolveIfNotResolved_def prepareForInjection_def keeps_def)
    next
      case (Returns injs)
      with p Some Callable assms(2) have m: "makeConcrete c1 f injs = (r, c')"
        by (auto simp: resolveIfNotResolved_def prepareForInjection_def)
      from makeConcrete_frame [OF m] k1 Returns show ?thesis
        using frame_make_trans by (auto simp: keeps_def split: result.splits)
    qed
  qed
qed


lemma bootDeferred_frame:
  "frame_make c (bootDeferred c a) \<and> injections (bootDeferred c a) = injections c"
  using bootProvider_frame by (auto simp: bootDeferred_def split: option.splits)

lemma resolve_rest_keeps:
  assumes R: "good R" and b: "resolve_rest R c a = Some (r, c')"
  shows "keeps c r c'"
proof (cases "isBound c a")
  case False
  with b show ?thesis
    by (auto simp: resolve_rest_def makeException_def keeps_def frame_make_def frame_def
             split: result.splits)
next
  case True
  let ?c2 = "bootDeferred c a"
  from b True obtain r3 c3 where r3: "resolveIfNotResolved R ?c2 a = Some (r3, c3)"
    by (auto simp: resolve_rest_def split: option.splits)
  from resolveIfNotResolved_keeps [OF R r3] have k3: "keeps ?c2 r3 c3" .
  have k2: "keeps c r3 c3"
    using k3 bootDeferred_frame [of c a] frame_make_trans
    by (auto simp: keeps_def split: result.splits)
  show ?thesis
  proof (cases r3)
    case (Throws e)
    with b True r3 k2 show ?thesis by (auto simp: resolve_rest_def)
  next
    case (Returns inst)
    show ?thesis
    proof (cases "canShare c3 a")
      case False
      with b True r3 k2 Returns show ?thesis by (auto simp: resolve_rest_def)
    next
      case s: True
      with b True r3 Returns have "r = Returns inst" "c' = snd (setInstance c3 a inst True)"
        by (auto simp: resolve_rest_def)
      with setInstance_frame [OF s, of inst True] k2 Returns show ?thesis
        using frame_make_trans by (auto simp: keeps_def)
    qed
  qed
qed

lemma resolve_body_make:
  "resolve_body R c a False =
     (if isResolved c a \<and> canShare c a then Some (Returns (getInstance c a), c)
      else resolve_rest R c a)"
  by (simp add: resolve_body_def)

lemma resolve_body_rebound:
  "resolve_body R c a True =
     (case destroy c a of
        (Throws e, c1) \<Rightarrow> Some (Throws e, c1)
      | (Returns d, c1) \<Rightarrow> resolve_rest R c1 a)"
  by (simp add: resolve_body_def)

lemma resolve_body_keeps:
  assumes R: "good R" and b: "resolve_body R c a False = Some (r, c')"
  shows "keeps c r c'"
proof (cases "isResolved c a \<and> canShare c a")
  case True
  with b show ?thesis by (auto simp: resolve_body_make keeps_def)
next
  case False
  with b have "resolve_rest R c a = Some (r, c')" by (simp add: resolve_body_make)
  from resolve_rest_keeps [OF R this] show ?thesis .
qed

lemma resolve_good: "good (resolve n)"
proof (induction n)
  case 0
  show ?case by (simp add: good_def)
next
  case (Suc n)
  show ?case unfolding good_def
  proof (intro allI impI)
    fix c a r c'
    assume "resolve (Suc n) c a False = Some (r, c')"
    then have "resolve_body (resolve n) c a False = Some (r, c')" by simp
    from resolve_body_keeps [OF Suc this] show "keeps c r c'" .
  qed
qed

lemma make_keeps: "make n c a = Some (r, c') \<Longrightarrow> keeps c r c'"
  using resolve_good [of n] by (simp add: make_def good_def)

lemma rebound_frame:
  assumes "rebound n c a = Some (r, c')"
  shows "frame c c'"
proof (cases n)
  case 0
  with assms show ?thesis by (simp add: rebound_def)
next
  case (Suc m)
  obtain rd c1 where d: "destroy c a = (rd, c1)" by (cases "destroy c a")
  from destroy_frame [OF d] have f1: "frame c c1" by simp
  show ?thesis
  proof (cases rd)
    case (Throws e)
    with assms Suc d f1 show ?thesis by (simp add: rebound_def resolve_body_rebound)
  next
    case (Returns x)
    with assms Suc d have "resolve_rest (resolve m) c1 a = Some (r, c')"
      by (simp add: rebound_def resolve_body_rebound)
    from resolve_rest_keeps [OF resolve_good this] have "frame c1 c'"
      by (simp add: keeps_def frame_make_def)
    with f1 show ?thesis using frame_trans by blast
  qed
qed

lemma bootDeferred_fields [simp]:
  "bindings (bootDeferred c a) = bindings c"
  "resolved (bootDeferred c a) = resolved c"
  "sharable (bootDeferred c a) = sharable c"
  "injections (bootDeferred c a) = injections c"
  "providers (bootDeferred c a) = providers c"
  "errorHandler (bootDeferred c a) = errorHandler c"
  "className (bootDeferred c a) = className c"
  "heap (bootDeferred c a) = heap c"
  "invocations (bootDeferred c a) = invocations c"
  "binding_of (bootDeferred c a) x = binding_of c x"
  "isBound (bootDeferred c a) x = isBound c x"
  "getInstance (bootDeferred c a) x = getInstance c x"
  "isResolved (bootDeferred c a) x = isResolved c x"
  by (simp_all add: bootDeferred_def bootProvider_def provider_load_def invocations_def
        binding_of_def isBound_def getInstance_def isResolved_def
        split: option.splits)

lemma inherited_cases:
  "inherited key \<longleftrightarrow>
     key = ''constructor'' \<or> key = ''__defineGetter__'' \<or> key = ''__defineSetter__''
     \<or> key = ''hasOwnProperty'' \<or> key = ''__lookupGetter__'' \<or> key = ''__lookupSetter__''
     \<or> key = ''isPrototypeOf'' \<or> key = ''propertyIsEnumerable'' \<or> key = ''toString''
     \<or> key = ''valueOf'' \<or> key = ''__proto__'' \<or> key = ''toLocaleString''"
  by (simp add: inherited_def object_prototype_names_def)




lemma bootDeferred_injections_update:
  "bootDeferred (c\<lparr>injections := xs\<rparr>) a = (bootDeferred c a)\<lparr>injections := xs\<rparr>"
  by (simp add: bootDeferred_def bootProvider_def provider_load_def findProvider_def
        split: option.splits)

section \<open>Every resolution ends\<close>















section \<open>The pipeline runs its pipes in order\<close>

lemma thread_passing_handle:
  "thread pipe_handle (map passing fgs) s k = k (fold fst fgs s)"
  by (induction fgs arbitrary: s) (simp_all add: passing_def)

lemma thread_passing_terminate:
  "thread pipe_terminate (map passing fgs) s k = k (fold snd fgs s)"
  by (induction fgs arbitrary: s) (simp_all add: passing_def)

text \<open>
  C7. When every pipe passes a transformed state to its continuation (pipe \<open>i\<close>
  applies \<open>f\<^sub>i\<close> in \<^verbatim>\<open>handle\<close> and \<open>g\<^sub>i\<close> in \<^verbatim>\<open>terminate\<close>), \<^verbatim>\<open>via('handle')\<close> hands the
  terminal callback the state obtained by applying \<open>f\<^sub>0\<close>, \<open>f\<^sub>1\<close>, ... in array order,
  and \<^verbatim>\<open>via('terminate')\<close> the one obtained by applying the \<open>g\<^sub>i\<close> from the last index
  down to the first. With the four pipes of the test, \<^verbatim>\<open>{state: 1}\<close> becomes
  \<^verbatim>\<open>{state: 5}\<close> forwards and \<^verbatim>\<open>{state: 5}\<close> becomes \<^verbatim>\<open>{state: 1}\<close> backwards.
\<close>

theorem pipeline_order:
  "via (through (send s) (map passing fgs)) Handle k = k (fold fst fgs s)
   \<and> via (through (send s) (map passing fgs)) Terminate k = k (fold snd (rev fgs) s)
   \<and> via (through (send \<lparr>state = 1\<rparr>) [PipeA, PipeB, PipeC, PipeD]) Handle k' = k' \<lparr>state = 5\<rparr>
   \<and> via (through (send \<lparr>state = 5\<rparr>) [PipeA, PipeB, PipeC, PipeD]) Terminate k' = k' \<lparr>state = 1\<rparr>"
proof -
  have "thread pipe_terminate (rev (map passing fgs)) s k = k (fold snd (rev fgs) s)"
    by (simp add: rev_map thread_passing_terminate)
  then show ?thesis
    by (simp add: via_def through_def send_def thread_passing_handle
          PipeA_def PipeB_def PipeC_def PipeD_def passing_def)
qed

section \<open>The parameter names read from the text of a function\<close>

lemma dropWhile_self: "xs = [] \<or> \<not> P (hd xs) \<Longrightarrow> dropWhile P xs = xs"
  by (cases xs) auto

lemma trim_trimmed: "trim (trim s) = trim s"
proof -
  let ?t = "dropWhile is_whitespace s"
  let ?u = "dropWhile is_whitespace (rev ?t)"
  have hd_u: "?u = [] \<or> \<not> is_whitespace (hd ?u)" using hd_dropWhile [of is_whitespace "rev ?t"] by blast
  have last_u: "?u = [] \<or> \<not> is_whitespace (last ?u)"
  proof (cases "?u = []")
    case True
    then show ?thesis by simp
  next
    case False
    have "rev ?t = takeWhile is_whitespace (rev ?t) @ ?u" by simp
    with False have "last ?u = last (rev ?t)" by (metis last_appendR)
    moreover from False have "rev ?t \<noteq> []" by (metis dropWhile.simps(1))
    then have "?t \<noteq> []" by simp
    ultimately have "last ?u = hd ?t" by (simp add: last_rev)
    with \<open>?t \<noteq> []\<close> hd_dropWhile [of is_whitespace s] show ?thesis by simp
  qed
  from last_u have "rev ?u = [] \<or> \<not> is_whitespace (hd (rev ?u))"
    by (cases "?u = []") (simp_all add: hd_rev)
  then have 1: "dropWhile is_whitespace (rev ?u) = rev ?u" by (rule dropWhile_self)
  from hd_u have 2: "dropWhile is_whitespace ?u = ?u" by (rule dropWhile_self)
  show ?thesis unfolding trim_def using 1 2 by simp
qed

text \<open>What \<^verbatim>\<open>_readArguments\<close> does do: the names it returns are trimmed and not empty.\<close>

lemma readArguments_trimmed:
  "arg \<in> set (readArguments t) \<Longrightarrow> arg \<noteq> [] \<and> trim arg = arg"
  by (auto simp: readArguments_def trim_trimmed split: option.splits if_splits)

text \<open>
  C8. \<^verbatim>\<open>_readArguments\<close> is documented to skip inline comments; it splits, trims and
  filters, and does nothing about comments: for
  \<^verbatim>\<open>function (a /* dep */, b) {}\<close> the first name it returns still carries the comment.
\<close>

theorem readArguments_keeps_comment:
  "readArguments ''function (a /* dep */, b) {}'' = [''a /* dep */'', ''b'']"
  by (simp add: readArguments_def trim_def is_whitespace_def is_line_terminator_def)

section \<open>A factory that returns nothing\<close>

text \<open>
  C4. \<^verbatim>\<open>_makeConcrete\<close> makes the Binding Exception for an \<^verbatim>\<open>undefined\<close> result and
  returns it: with \<^verbatim>\<open>function () {}\<close> bound to \<^verbatim>\<open>A\<close> in a new container, which has no
  error handler, \<^verbatim>\<open>make('A')\<close> does not throw; the exception object is its value.
\<close>

theorem undefined_result_is_returned:
  \<open>map_option fst (make 1 (bind (Container 0) ''A'' (Callable fn_empty) True) ''A'')
     = Some (Returns (ErrorObj 0 ''Container Binding Exception''
                        ''Binding function () {} failed, return value is undefined.''))\<close>
  by (simp add: make_def resolve_body_def resolve_rest_def bind_def Container_def isResolved_def isBound_def
        canShare_def bootDeferred_def findProvider_def resolveIfNotResolved_def prepareForInjection_def
        fn_empty_def readArguments_def makeConcrete_def invoke_def isClass_def getName_def
        makeException_def setInstance_def is_line_terminator_def lookup_defs isset_def)

section \<open>Binding again over a cached instance\<close>

lemma unShare_each_returns:
  "alias \<noteq> [] \<Longrightarrow> \<exists>d. unShare_each alias objects c = (Returns (), d)"
proof (induction objects arbitrary: c)
  case Nil
  show ?case by simp
next
  case (Cons object objects)
  from Cons.prems obtain x xs where "alias = x # xs" by (cases "alias") auto
  with Cons.IH [OF Cons.prems] show ?case by (simp add: getSharedAliasName_def)
qed

lemma unShare_returns:
  assumes "alias \<noteq> []" and "\<not> inherited alias"
  shows "\<exists>d. unShare c alias = (Returns (), d) \<and> frame c d \<and> injections d = injections c
              \<and> resolved d = resolved c"
proof -
  have "\<exists>d. unShare c alias = (Returns (), d)"
  proof (cases "sharedWith c alias")
    case None
    with assms(2) show ?thesis by (simp add: unShare_def)
  next
    case (Some objects)
    from unShare_each_returns [OF assms(1), of objects c] obtain d where
      "unShare_each alias objects c = (Returns (), d)" by blast
    with Some show ?thesis by (simp add: unShare_def)
  qed
  then obtain d where d: "unShare c alias = (Returns (), d)" by blast
  from unShare_frame [OF d] d show ?thesis by blast
qed

lemma destroy_returns:
  assumes "alias \<noteq> []" and "\<not> inherited alias" and "truthy (getInstance c alias)"
  shows "\<exists>d. destroy c alias = (Returns True, d) \<and> frame c d \<and> injections d = injections c
              \<and> resolved d = (resolved c)(alias := None)"
proof -
  from assms(2,3) obtain v where v: "resolved c alias = Some v" "truthy v"
    by (auto simp: getInstance_def split: option.splits)
  then have r: "isResolved c alias"
    by (cases v) (simp_all add: isResolved_def getInstance_def isset_def)
  from unShare_returns [OF assms(1,2), of c] obtain d where
    d: "unShare c alias = (Returns (), d)" "frame c d" "injections d = injections c"
       "resolved d = resolved c" by blast
  let ?d = "d\<lparr>resolved := destroyReference truthy alias (resolved d)\<rparr>"
  from d r have "destroy c alias = (Returns True, ?d)" by (simp add: destroy_def)
  moreover from d have "frame c ?d" by (simp add: frame_def)
  moreover from d v have "resolved ?d = (resolved c)(alias := None)"
    by (simp add: destroyReference_def)
  ultimately show ?thesis using d(3) by simp
qed

text \<open>
  C10, as stated, fails for the alias \<^verbatim>\<open>__proto__\<close>, which every new container finds
  resolved (its resolved map inherits the property) and which \<^verbatim>\<open>bind('__proto__', 5)\<close>
  marks sharable: the assignment of \<^verbatim>\<open>bind\<close> makes no property under that key (and, the
  value being a number, does nothing else), so that \<^verbatim>\<open>bind('__proto__', 7)\<close> does not
  overwrite a binding; what the container finds bound under the alias is what it
  found before, the inherited object.
\<close>

theorem rebinding_proto_overwrites_nothing:
  "isResolved proto_bound ''__proto__'' \<and> canShare proto_bound ''__proto__''
   \<and> binding_of proto_bound ''__proto__'' = Some (Concrete (Inherited ''__proto__''))
   \<and> binding_of (bind proto_bound ''__proto__'' (Concrete (Num 7)) True) ''__proto__''
       = Some (Concrete (Inherited ''__proto__''))"
  by (simp add: proto_bound_def bind_def Container_def isResolved_def canShare_def isset_def
        lookup_defs)

text \<open>
  C10, amended. When \<open>alias\<close> is resolved and sharable, \<^verbatim>\<open>bind(alias, newBinding)\<close>
  leaves the resolved map as it is, and \<^verbatim>\<open>make(alias)\<close> after it returns the instance
  that was cached before, without changing the container. Unless the alias is
  \<^verbatim>\<open>__proto__\<close>, the new binding is then the binding of the alias. When moreover the
  alias is not empty and not the name of an inherited property, and the cached
  instance is truthy, then after the \<^verbatim>\<open>bind\<close> each of \<^verbatim>\<open>destroy(alias)\<close> and
  \<^verbatim>\<open>unBind(alias)\<close> returns and leaves the alias unresolved, and \<^verbatim>\<open>rebound(alias)\<close>
  resolves from the new binding: for a new binding that is a value that is set,
  it returns that value and caches it.
\<close>

theorem rebinding_keeps_cached_instance:
  "isResolved c alias \<Longrightarrow> canShare c alias \<Longrightarrow>
   resolved (bind c alias newBinding shared) = resolved c
   \<and> make (Suc n) (bind c alias newBinding shared) alias
       = Some (Returns (getInstance c alias), bind c alias newBinding shared)
   \<and> (alias \<noteq> ''__proto__''
      \<longrightarrow> bindings (bind c alias newBinding shared) alias = Some newBinding)
   \<and> (alias \<noteq> [] \<and> \<not> inherited alias \<and> truthy (getInstance c alias)
      \<longrightarrow> (\<exists>d. destroy (bind c alias newBinding shared) alias = (Returns True, d)
                \<and> \<not> isResolved d alias)
          \<and> (\<exists>d. unBind (bind c alias newBinding shared) alias = (Returns (), d)
                \<and> \<not> isResolved d alias)
          \<and> (\<forall>w. newBinding = Concrete w \<and> isset w
                \<longrightarrow> (\<exists>d. rebound (Suc n) (bind c alias newBinding shared) alias
                              = Some (Returns w, d)
                         \<and> resolved d alias = Some w)))"
proof (intro conjI impI allI)
  let ?b = "bind c alias newBinding shared"
  assume r: "isResolved c alias" and s: "canShare c alias"
  show "resolved ?b = resolved c" by (simp add: bind_def)
  from r s show "make (Suc n) ?b alias = Some (Returns (getInstance c alias), ?b)"
    by (simp add: make_def resolve_body_def bind_def isResolved_def canShare_def getInstance_def)
  {
    assume "alias \<noteq> ''__proto__''"
    then show "bindings ?b alias = Some newBinding" by (simp add: bind_def put_def)
  }
  {
    assume a: "alias \<noteq> [] \<and> \<not> inherited alias \<and> truthy (getInstance c alias)"
    then have ne: "alias \<noteq> []" and ni: "\<not> inherited alias" by simp_all
    from a have t: "truthy (getInstance ?b alias)" by (simp add: getInstance_def bind_def)
    from destroy_returns [OF ne ni t] obtain d where
      d: "destroy ?b alias = (Returns True, d)" "frame ?b d" "injections d = injections ?b"
         "resolved d = (resolved ?b)(alias := None)" by blast
    from d(4) ni have u: "\<not> isResolved d alias"
      by (simp add: isResolved_def getInstance_def isset_def)
    from d(1) u show "\<exists>d. destroy ?b alias = (Returns True, d) \<and> \<not> isResolved d alias" by blast
    let ?d = "d\<lparr>bindings := destroyReference truthy_binding alias (bindings d),
                 sharable := (if alias \<in> set (sharable d) then remove1 alias (sharable d)
                              else sharable d)\<rparr>"
    from d(1) have "unBind ?b alias = (Returns (), ?d)" by (simp add: unBind_def)
    moreover from u have "\<not> isResolved ?d alias" by (simp add: isResolved_def getInstance_def)
    ultimately show "\<exists>d. unBind ?b alias = (Returns (), d) \<and> \<not> isResolved d alias" by blast
    fix w
    assume w: "newBinding = Concrete w \<and> isset w"
    from ni have np: "alias \<noteq> ''__proto__''" by (auto simp: inherited_cases)
    from d(2) np w have bd: "bindings d alias = Some (Concrete w)"
      by (simp add: frame_def bind_def put_def)
    from d(2) s have sd: "canShare d alias" by (simp add: frame_def bind_def canShare_def)
    from bd w have bound: "isBound d alias" by (simp add: isBound_def binding_of_def)
    from bd have "resolveIfNotResolved (resolve n) (bootDeferred d alias) alias
                    = Some (Returns w, bootDeferred d alias)"
      by (simp add: resolveIfNotResolved_def binding_of_def)
    with bound sd
    have "resolve_rest (resolve n) d alias
            = Some (Returns w, snd (setInstance (bootDeferred d alias) alias w True))"
      by (simp add: resolve_rest_def canShare_def)
    with d(1) have "rebound (Suc n) ?b alias
            = Some (Returns w, snd (setInstance (bootDeferred d alias) alias w True))"
      by (simp add: rebound_def resolve_body_rebound)
    moreover from np
    have "resolved (snd (setInstance (bootDeferred d alias) alias w True)) alias = Some w"
      by (simp add: setInstance_def put_def)
    ultimately show "\<exists>d. rebound (Suc n) ?b alias = Some (Returns w, d) \<and> resolved d alias = Some w"
      by blast
  }
qed

lemma resolved_Service_eval:
  "resolved resolved_Service = [''Service'' \<mapsto> Obj 0]
   \<and> sharable resolved_Service = [''Service'']"
  by (simp add: resolved_Service_def make_def resolve_body_def resolve_rest_def bind_def Container_def
        isResolved_def isBound_def canShare_def bootDeferred_def findProvider_def resolveIfNotResolved_def
        prepareForInjection_def fn_Service_def readArguments_def makeConcrete_def invoke_def
        isClass_def getName_def makeException_def setInstance_def is_line_terminator_def
        lookup_defs isset_def)

theorem rebinding_keeps_cached_instance_witness:
  "isResolved resolved_Service ''Service'' \<and> canShare resolved_Service ''Service''
   \<and> make 1 (bind resolved_Service ''Service'' (Concrete (Num 7)) True) ''Service''
       = Some (Returns (Obj 0), bind resolved_Service ''Service'' (Concrete (Num 7)) True)
   \<and> ''Service'' \<noteq> ''__proto__''
   \<and> bindings (bind resolved_Service ''Service'' (Concrete (Num 7)) True) ''Service''
       = Some (Concrete (Num 7))
   \<and> ''Service'' \<noteq> [] \<and> \<not> inherited ''Service''
   \<and> truthy (getInstance resolved_Service ''Service'')
   \<and> isset (Num 7)
   \<and> (\<exists>d. destroy (bind resolved_Service ''Service'' (Concrete (Num 7)) True) ''Service''
             = (Returns True, d) \<and> \<not> isResolved d ''Service'')
   \<and> (\<exists>d. rebound 1 (bind resolved_Service ''Service'' (Concrete (Num 7)) True) ''Service''
             = Some (Returns (Num 7), d) \<and> resolved d ''Service'' = Some (Num 7))"
proof -
  have r: "isResolved resolved_Service ''Service''"
    by (simp add: isResolved_def getInstance_def resolved_Service_eval isset_def)
  have s: "canShare resolved_Service ''Service''"
    by (simp add: canShare_def resolved_Service_eval)
  have h: "''Service'' \<noteq> [] \<and> \<not> inherited ''Service''
           \<and> truthy (getInstance resolved_Service ''Service'')"
    by (simp add: getInstance_def resolved_Service_eval inherited_cases)
  have w: "isset (Num 7)" by (simp add: isset_def)
  note t = rebinding_keeps_cached_instance
      [OF r s, where n = 0 and newBinding = "Concrete (Num 7)" and shared = True]
  from t have c1: "make 1 (bind resolved_Service ''Service'' (Concrete (Num 7)) True) ''Service''
       = Some (Returns (Obj 0), bind resolved_Service ''Service'' (Concrete (Num 7)) True)"
    by (simp add: getInstance_def resolved_Service_eval)
  from t have c2: "bindings (bind resolved_Service ''Service'' (Concrete (Num 7)) True) ''Service''
       = Some (Concrete (Num 7))" by simp
  from t h have c3: "\<exists>d. destroy (bind resolved_Service ''Service'' (Concrete (Num 7)) True) ''Service''
             = (Returns True, d) \<and> \<not> isResolved d ''Service''" by blast
  from t h w have c4: "\<exists>d. rebound 1 (bind resolved_Service ''Service'' (Concrete (Num 7)) True) ''Service''
             = Some (Returns (Num 7), d) \<and> resolved d ''Service'' = Some (Num 7)"
    by (simp del: One_nat_def add: One_nat_def [symmetric])
  from r s h w c1 c2 c3 c4 show ?thesis by simp
qed

section \<open>Shared and unshared bindings\<close>

















section \<open>A dependency that is already being resolved\<close>

lemma in_flight_throws:
  assumes b: "bindings c alias = Some (Callable f)"
    and d: "readArguments (source f) = dependency # rest"
    and i: "dependency \<in> set (injections c)"
    and n: "\<not> (isResolved c alias \<and> canShare c alias)"
  shows "resolve_body R c alias False =
           Some (Throws (ErrorObj (heap c) (className c @ '' Circular Dependency Exception'')
                           (alias @ '' requires '' @ join (injections c))),
                 (bootDeferred c alias)\<lparr>heap := Suc (heap c)\<rparr>)"
  using assms
  by (simp add: resolve_body_make resolve_rest_def isBound_def binding_of_def
        resolveIfNotResolved_def prepareForInjection_def makeException_def)

lemma first_dependency_throws:
  assumes b: "bindings c alias = Some (Callable f)"
    and d: "readArguments (source f) = dependency # rest"
    and i: "dependency \<notin> set (injections c)"
    and n: "\<not> (isResolved c alias \<and> canShare c alias)"
    and r: "R ((bootDeferred c alias)\<lparr>injections := injections c @ [dependency]\<rparr>) dependency False
              = Some (Throws e, c')"
  shows "resolve_body R c alias False = Some (Throws e, c')"
  using assms
  by (simp add: resolve_body_make resolve_rest_def isBound_def binding_of_def
        resolveIfNotResolved_def prepareForInjection_def)

lemma circular_throws:
  assumes bA: "bindings c A = Some (Callable fA)" and bB: "bindings c B = Some (Callable fB)"
    and dA: "readArguments (source fA) = B # as" and dB: "readArguments (source fB) = A # bs"
    and ne: "A \<noteq> B"
    and nA: "\<not> (isResolved c A \<and> canShare c A)" and nB: "\<not> (isResolved c B \<and> canShare c B)"
    and i: "injections c = []"
  shows "\<exists>c'. resolve (Suc (Suc (Suc n))) c A False =
                Some (Throws (ErrorObj (heap c) (className c @ '' Circular Dependency Exception'')
                                (A @ '' requires '' @ B @ '', '' @ A)), c')
              \<and> invocations c' = invocations c \<and> resolved c' = resolved c"
proof -
  let ?c1 = "(bootDeferred c A)\<lparr>injections := [B]\<rparr>"
  let ?c2 = "(bootDeferred ?c1 B)\<lparr>injections := [B, A]\<rparr>"
  let ?c3 = "(bootDeferred ?c2 A)\<lparr>heap := Suc (heap c)\<rparr>"
  let ?e = "ErrorObj (heap c) (className c @ '' Circular Dependency Exception'')
              (A @ '' requires '' @ B @ '', '' @ A)"
  have s3: "resolve (Suc n) ?c2 A False = Some (Throws ?e, ?c3)"
    using in_flight_throws [of ?c2 A fA B as "resolve n"] bA dA nA
    by (simp add: isResolved_def getInstance_def canShare_def)
  have s2: "resolve (Suc (Suc n)) ?c1 B False = Some (Throws ?e, ?c3)"
    using first_dependency_throws [of ?c1 B fB A bs "resolve (Suc n)" ?e ?c3] bB dB nB ne s3
    by (simp add: isResolved_def getInstance_def canShare_def)
  have s1: "resolve (Suc (Suc (Suc n))) c A False = Some (Throws ?e, ?c3)"
    using first_dependency_throws [of c A fA B as "resolve (Suc (Suc n))" ?e ?c3] bA dA nA i s2
    by simp
  have "invocations ?c3 = invocations c \<and> resolved ?c3 = resolved c"
    by (simp add: invocations_def bootDeferred_def bootProvider_def provider_load_def
          split: option.splits)
  with s1 show ?thesis by auto
qed




lemma circular_AB_fields:
  "bindings circular_AB ''A'' = Some (Callable fn_A)"
  "bindings circular_AB ''B'' = Some (Callable fn_B)"
  "resolved circular_AB = Map.empty" "injections circular_AB = []"
  "heap circular_AB = 0" "className circular_AB = ''Container''"
  "events circular_AB = []" "providers circular_AB = []" "errorHandler circular_AB = None"
  "sharable circular_AB = [''A'', ''B'']"
  by (simp_all add: circular_AB_def bind_def Container_def put_def)

lemma fn_AB_arguments:
  "readArguments (source fn_A) = [''B'']" "readArguments (source fn_B) = [''A'']"
  by (simp_all add: fn_A_def fn_B_def readArguments_def trim_def is_whitespace_def
        is_line_terminator_def)


section \<open>Which errors reach the handler\<close>

text \<open>
  C3, as stated, fails for the circular dependency: with a handler installed whose
  \<^verbatim>\<open>handle\<close> returns \<^verbatim>\<open>null\<close> for this very error, \<^verbatim>\<open>make('A')\<close> on the two bindings that
  ask for each other still throws it.
\<close>

theorem circular_error_escapes_handler:
  "handleError (errorHandler_set circular_AB handler_null)
       (ErrorObj 0 ''Container Circular Dependency Exception'' ''A requires B, A'')
     = Returns Null
   \<and> map_option fst (make 3 (errorHandler_set circular_AB handler_null) ''A'')
     = Some (Throws (ErrorObj 0 ''Container Circular Dependency Exception'' ''A requires B, A''))"
proof -
  let ?c = "errorHandler_set circular_AB handler_null"
  have f: "bindings ?c ''A'' = Some (Callable fn_A)" "bindings ?c ''B'' = Some (Callable fn_B)"
    "injections ?c = []" "heap ?c = 0" "className ?c = ''Container''"
    "\<not> (isResolved ?c ''A'' \<and> canShare ?c ''A'')" "\<not> (isResolved ?c ''B'' \<and> canShare ?c ''B'')"
    by (simp_all add: errorHandler_set_def circular_AB_fields isResolved_def isset_def lookup_defs)
  have ne: "''A'' \<noteq> ''B''" by simp
  from circular_throws [OF f(1) f(2) fn_AB_arguments(1) fn_AB_arguments(2) ne f(6) f(7) f(3), of 0]
  have "map_option fst (make 3 ?c ''A'')
     = Some (Throws (ErrorObj 0 ''Container Circular Dependency Exception'' ''A requires B, A''))"
    by (auto simp: f numeral_3_eq_3 make_def)
  then show ?thesis
    by (simp add: handleError_def errorHandler_set_def handler_null_def)
qed

lemma handleError_heap: "handleError (c\<lparr>heap := a\<rparr>) e = handleError c e"
  by (simp add: handleError_def)

text \<open>
  C3, amended. \<^verbatim>\<open>handleError\<close> gives the completion of the handler's \<^verbatim>\<open>handle(error)\<close>
  when a handler with a callable \<^verbatim>\<open>handle\<close> is installed, and throws the error itself
  otherwise: when no handler is installed, and when the handler installed has no
  callable \<^verbatim>\<open>handle\<close>. The failure of \<^verbatim>\<open>make\<close> for an unbound alias and an exception
  thrown by the invocation of a bound function both end in \<^verbatim>\<open>handleError\<close>: its
  outcome is the outcome at the failure site. A circular dependency is thrown
  directly, whatever the handler.
\<close>

theorem errors_reach_handler_except_circular:
  \<open>(errorHandler c = Some h \<and> handle h = Some g \<longrightarrow> handleError c error = g error)
   \<and> (errorHandler c = None \<longrightarrow> handleError c error = Throws error)
   \<and> (errorHandler c = Some h \<and> handle h = None \<longrightarrow> handleError c error = Throws error)
   \<and> (\<not> isBound c a \<and> \<not> (isResolved c a \<and> canShare c a)
      \<longrightarrow> make (Suc n) c a
            = Some (handleError c (ErrorObj (heap c) (className c @ '' Binding Exception'')
                                     (''No Binding found for "'' @ a @ ''".'')),
                    c\<lparr>heap := Suc (heap c)\<rparr>))
   \<and> (invoke c f injs = (Throws e, c') \<longrightarrow> makeConcrete c f injs = (handleError c e, c'))
   \<and> (bindings c a = Some (Callable f) \<and> readArguments (source f) = dependency # rest
       \<and> dependency \<in> set (injections c) \<and> \<not> (isResolved c a \<and> canShare c a)
      \<longrightarrow> make (Suc n) c a
            = Some (Throws (ErrorObj (heap c) (className c @ '' Circular Dependency Exception'')
                              (a @ '' requires '' @ join (injections c))),
                    (bootDeferred c a)\<lparr>heap := Suc (heap c)\<rparr>))\<close>
proof (intro conjI impI)
  assume "errorHandler c = Some h \<and> handle h = Some g"
  then show "handleError c error = g error" by (simp add: handleError_def)
next
  assume "errorHandler c = None"
  then show "handleError c error = Throws error" by (simp add: handleError_def)
next
  assume "errorHandler c = Some h \<and> handle h = None"
  then show "handleError c error = Throws error" by (simp add: handleError_def)
next
  assume "\<not> isBound c a \<and> \<not> (isResolved c a \<and> canShare c a)"
  then show \<open>make (Suc n) c a
            = Some (handleError c (ErrorObj (heap c) (className c @ '' Binding Exception'')
                                     (''No Binding found for "'' @ a @ ''".'')),
                    c\<lparr>heap := Suc (heap c)\<rparr>)\<close>
    by (auto simp: make_def resolve_body_make resolve_rest_def makeException_def handleError_heap)
next
  assume "invoke c f injs = (Throws e, c')"
  moreover from this have "errorHandler c' = errorHandler c"
    using invoke_frame by (auto simp: frame_make_def frame_def)
  ultimately show "makeConcrete c f injs = (handleError c e, c')"
    by (simp add: makeConcrete_def handleError_def)
next
  assume a: "bindings c a = Some (Callable f) \<and> readArguments (source f) = dependency # rest
       \<and> dependency \<in> set (injections c) \<and> \<not> (isResolved c a \<and> canShare c a)"
  then show "make (Suc n) c a
            = Some (Throws (ErrorObj (heap c) (className c @ '' Circular Dependency Exception'')
                              (a @ '' requires '' @ join (injections c))),
                    (bootDeferred c a)\<lparr>heap := Suc (heap c)\<rparr>)"
    using in_flight_throws [of c a f dependency rest "resolve n"] by (simp add: make_def)
qed

theorem errors_reach_handler_except_circular_witness:
  \<open>errorHandler handled_T = Some handler_null \<and> handle handler_null = Some (\<lambda>error. Returns Null)
   \<and> handleError handled_T (Num 1) = Returns Null
   \<and> errorHandler circular_AB = None \<and> handleError circular_AB (Num 1) = Throws (Num 1)
   \<and> errorHandler muted = Some handler_mute \<and> handle handler_mute = None
   \<and> handleError muted (Num 1) = Throws (Num 1)
   \<and> \<not> isBound handled_T ''X'' \<and> \<not> (isResolved handled_T ''X'' \<and> canShare handled_T ''X'')
   \<and> make 1 handled_T ''X'' = Some (Returns Null, handled_T\<lparr>heap := 1\<rparr>)
   \<and> invoke handled_T fn_throws []
        = (Throws (Num 1), handled_T\<lparr>events := [Invoked ''function () { throw 1 }'' []]\<rparr>)
   \<and> makeConcrete handled_T fn_throws []
        = (Returns Null, handled_T\<lparr>events := [Invoked ''function () { throw 1 }'' []]\<rparr>)
   \<and> bindings in_flight_B ''A'' = Some (Callable fn_A)
   \<and> readArguments (source fn_A) = [''B''] \<and> ''B'' \<in> set (injections in_flight_B)
   \<and> \<not> (isResolved in_flight_B ''A'' \<and> canShare in_flight_B ''A'')
   \<and> make 1 in_flight_B ''A''
        = Some (Throws (ErrorObj 0 ''Container Circular Dependency Exception'' ''A requires B''),
                in_flight_B\<lparr>heap := 1\<rparr>)\<close>
proof -
  have T: "errorHandler handled_T = Some handler_null" "heap handled_T = 0"
    "className handled_T = ''Container''" "bindings handled_T ''X'' = None"
    "resolved handled_T = Map.empty" "events handled_T = []"
    by (simp_all add: handled_T_def errorHandler_set_def bind_def Container_def put_def)
  have h: "handle handler_null = Some (\<lambda>error. Returns Null)" by (simp add: handler_null_def)
  have M: "errorHandler muted = Some handler_mute" "handle handler_mute = None"
    by (simp_all add: muted_def errorHandler_set_def handler_mute_def)
  have X: "\<not> isBound handled_T ''X''" "\<not> (isResolved handled_T ''X'' \<and> canShare handled_T ''X'')"
    by (simp_all add: isBound_def isResolved_def isset_def lookup_defs T)
  have i: "invoke handled_T fn_throws []
        = (Throws (Num 1), handled_T\<lparr>events := [Invoked ''function () { throw 1 }'' []]\<rparr>)"
    by (simp add: invoke_def fn_throws_def isClass_def getName_def T)
  have B: "bindings in_flight_B ''A'' = Some (Callable fn_A)" "injections in_flight_B = [''B'']"
    "\<not> (isResolved in_flight_B ''A'' \<and> canShare in_flight_B ''A'')"
    "heap in_flight_B = 0" "className in_flight_B = ''Container''"
    "bootDeferred in_flight_B ''A'' = in_flight_B"
    by (simp_all add: in_flight_B_def errorHandler_set_def circular_AB_fields isResolved_def
          isset_def lookup_defs bootDeferred_def findProvider_def)
  note t = errors_reach_handler_except_circular
  note t1 = t [where c = handled_T and h = handler_null and g = "\<lambda>error. Returns Null"
                and error = "Num 1" and a = "''X''" and n = 0 and f = fn_throws and injs = "[]"
                and e = "Num 1" and c' = "handled_T\<lparr>events := [Invoked ''function () { throw 1 }'' []]\<rparr>"]
  note t2 = t [where c = circular_AB and error = "Num 1"]
  note t4 = t [where c = muted and h = handler_mute and error = "Num 1"]
  note t3 = t [where c = in_flight_B and a = "''A''" and f = fn_A and dependency = "''B''"
                and rest = "[]" and n = 0]
  from t1 T h have c1: "handleError handled_T (Num 1) = Returns Null" by blast
  from t2 have c2: "handleError circular_AB (Num 1) = Throws (Num 1)"
    by (simp add: circular_AB_fields)
  from t4 M have c6: "handleError muted (Num 1) = Throws (Num 1)" by blast
  from t1 X c1 have c3: "make 1 handled_T ''X'' = Some (Returns Null, handled_T\<lparr>heap := 1\<rparr>)"
    by (simp add: T handleError_def h)
  from t1 i c1 have c4: "makeConcrete handled_T fn_throws []
        = (Returns Null, handled_T\<lparr>events := [Invoked ''function () { throw 1 }'' []]\<rparr>)"
    by simp
  from t3 B have c5: "make 1 in_flight_B ''A''
        = Some (Throws (ErrorObj 0 ''Container Circular Dependency Exception'' ''A requires B''),
                in_flight_B\<lparr>heap := 1\<rparr>)"
    by (simp add: fn_AB_arguments)
  from T h M X i B c1 c2 c3 c4 c5 c6 show ?thesis
    by (simp add: fn_AB_arguments circular_AB_fields)
qed

section \<open>The sharable list\<close>

lemma share_each_fields:
  "share_each aliases c = (r, c') \<Longrightarrow>
     bindings c' = bindings c \<and> resolved c' = resolved c \<and> sharable c' = sharable c
     \<and> events c' = events c \<and> providers c' = providers c"
proof (induction aliases arbitrary: c)
  case Nil
  then show ?case by simp
next
  case (Cons x xs)
  let ?c1 = "c\<lparr>heap := Suc (heap c)\<rparr>"
  let ?c2 = "c\<lparr>shouldShare := (if x \<in> set (shouldShare c) then shouldShare c else shouldShare c @ [x])\<rparr>"
  from Cons.prems have
    "(r, c') = (Throws (fst (makeException c (''No binding for '' @ x @ '' available to share.'') [])), ?c1)
     \<or> (r, c') = (Throws (fst (makeException c (x @ '' is not sharable.'') [])), ?c1)
     \<or> (\<exists>e. (r, c') = (Throws e, ?c1))
     \<or> share_each xs ?c1 = (r, c') \<or> share_each xs ?c2 = (r, c')"
    by (auto simp: makeException_def isBound_def canShare_def split: if_splits result.splits)
  then show ?case using Cons.IH [of ?c1] Cons.IH [of ?c2] by auto
qed

lemma share_fields:
  "share c aliases = (r, c') \<Longrightarrow>
     bindings c' = bindings c \<and> resolved c' = resolved c \<and> sharable c' = sharable c
     \<and> events c' = events c \<and> providers c' = providers c"
  using share_each_fields [of aliases "c\<lparr>shouldShare := []\<rparr>" r c'] by (simp add: share_def)

lemma withOthers_objects_snd:
  "bindings (snd (withOthers_objects a objs c)) = bindings c
   \<and> resolved (snd (withOthers_objects a objs c)) = resolved c
   \<and> sharable (snd (withOthers_objects a objs c)) = sharable c
   \<and> events (snd (withOthers_objects a objs c)) = events c
   \<and> providers (snd (withOthers_objects a objs c)) = providers c"
  by (induction objs arbitrary: c)
     (simp_all add: Let_def typeError_def split: option.splits)

lemma withOthers_objects_fields:
  "withOthers_objects a objs c = (r, c') \<Longrightarrow>
     bindings c' = bindings c \<and> resolved c' = resolved c \<and> sharable c' = sharable c
     \<and> events c' = events c \<and> providers c' = providers c"
  using withOthers_objects_snd [of a objs c] by simp

lemma withOthers_aliases_fields:
  "withOthers_aliases aliases objs c = (r, c') \<Longrightarrow>
     bindings c' = bindings c \<and> resolved c' = resolved c \<and> sharable c' = sharable c
     \<and> events c' = events c \<and> providers c' = providers c"
proof (induction aliases arbitrary: c)
  case Nil
  then show ?case by simp
next
  case (Cons a as)
  obtain r1 c1 where o: "withOthers_objects a objs c = (r1, c1)"
    by (cases "withOthers_objects a objs c")
  note f = withOthers_objects_fields [OF o]
  show ?case
  proof (cases r1)
    case (Throws e)
    with Cons.prems o f show ?thesis by simp
  next
    case (Returns u)
    with Cons.prems o have "withOthers_aliases as objs c1 = (r, c')" by simp
    from Cons.IH [OF this] f show ?thesis by simp
  qed
qed

lemma withOthers_fields:
  assumes "withOthers c objs = (r, c')"
  shows "bindings c' = bindings c \<and> resolved c' = resolved c \<and> sharable c' = sharable c
     \<and> events c' = events c \<and> providers c' = providers c"
proof (cases "shouldShare c = []")
  case True
  with assms show ?thesis by (auto simp: withOthers_def)
next
  case False
  obtain r1 c1 where o: "withOthers_aliases (shouldShare c) objs c = (r1, c1)"
    by (cases "withOthers_aliases (shouldShare c) objs c")
  from withOthers_aliases_fields [OF o] assms False o show ?thesis
    by (cases r1) (auto simp: withOthers_def)
qed

lemma bind_sharable: "set (sharable c) \<subseteq> set (sharable (bind c a b s))"
  by (auto simp: bind_def)

lemma fold_bind_sharable:
  "set (sharable c) \<subseteq> set (sharable (fold (\<lambda>(alias, binding, shared) c'. bind c' alias binding shared) bs c))"
proof (induction bs arbitrary: c)
  case Nil
  show ?case by simp
next
  case (Cons x xs)
  obtain a b s where x: "x = (a, b, s)" by (cases x)
  have "set (sharable c) \<subseteq> set (sharable (bind c a b s))" by (rule bind_sharable)
  also have "\<dots> \<subseteq> set (sharable (fold (\<lambda>(alias, binding, shared) c'. bind c' alias binding shared) xs (bind c a b s)))"
    by (rule Cons.IH)
  finally show ?case by (simp add: x)
qed

lemma provider_register_sharable:
  "set (sharable c) \<subseteq> set (sharable (provider_register p c))"
  using fold_bind_sharable [of "c\<lparr>events := events c @ [Registered (pname p)]\<rparr>" "registers p"]
  by (simp add: provider_register_def)

lemma fold_provider_register_sharable:
  "set (sharable c) \<subseteq> set (sharable (fold provider_register ps c))"
proof (induction ps arbitrary: c)
  case Nil
  show ?case by simp
next
  case (Cons p ps)
  from provider_register_sharable [of c p] Cons.IH [of "provider_register p c"]
  show ?case by auto
qed

lemma fold_boot_sharable:
  "sharable (fold (\<lambda>p c'. if \<not> isDeferred p then bootProvider c' p else c') ps c) = sharable c"
  by (induction ps arbitrary: c) (simp_all add: bootProvider_def provider_load_def)

lemma bootProviders_sharable: "set (sharable c) \<subseteq> set (sharable (bootProviders c))"
  using fold_provider_register_sharable [of c "map snd (providers c)"]
  by (simp add: bootProviders_def Let_def fold_boot_sharable)

lemma exec_sharable:
  assumes e: "exec n op c = Some c'" and u: "\<not> isUnBind op"
  shows "set (sharable c) \<subseteq> set (sharable c')"
proof (cases op)
  case (Bind a b s)
  with e show ?thesis using bind_sharable [of c a b s] by auto
next
  case (UnBind a)
  with u show ?thesis by simp
next
  case (SetInstance a v s)
  with e show ?thesis by (auto simp: setInstance_def)
next
  case (Destroy a)
  with e destroy_frame [of c a "fst (destroy c a)" c'] show ?thesis by (auto simp: frame_def)
next
  case (Make a)
  with e obtain r where "make n c a = Some (r, c')" by auto
  from make_keeps [OF this] show ?thesis by (simp add: keeps_def frame_make_def frame_def)
next
  case (Rebound a)
  with e obtain r where "rebound n c a = Some (r, c')" by auto
  from rebound_frame [OF this] show ?thesis by (simp add: frame_def)
next
  case (Register p)
  with e show ?thesis by (auto simp: register_def)
next
  case BootProviders
  with e show ?thesis using bootProviders_sharable [of c] by auto
next
  case (Share as)
  with e share_fields [of c as "fst (share c as)" c'] show ?thesis by auto
next
  case (WithOthers objs)
  with e withOthers_fields [of c objs "fst (withOthers c objs)" c'] show ?thesis by auto
next
  case (UnShare a)
  with e unShare_frame [of c a "fst (unShare c a)" c'] show ?thesis by (auto simp: frame_def)
next
  case (ErrorHandler h)
  with e show ?thesis by (auto simp: errorHandler_set_def)
qed

lemma unBind_sharable:
  assumes "unBind c a = (Returns u, c')"
  shows "sharable c' = remove1 a (sharable c)"
proof -
  obtain rd c1 where d: "destroy c a = (rd, c1)" by (cases "destroy c a")
  from destroy_frame [OF d] have "sharable c1 = sharable c" by (simp add: frame_def)
  with assms d show ?thesis
    by (cases rd) (auto simp: unBind_def remove1_idem)
qed

text \<open>
  C9. \<^verbatim>\<open>bind(alias, binding, false)\<close> leaves the sharable list as it is, so an alias
  that was sharable stays sharable. After any public operation other than
  \<^verbatim>\<open>unBind\<close>, whatever its arguments, an alias that was sharable is still sharable.
  \<^verbatim>\<open>unBind(alias)\<close>, when it returns, takes the alias off the list (on which no
  alias is listed twice).
\<close>

theorem only_unBind_unmarks:
  "sharable (bind c a binding False) = sharable c
   \<and> (canShare c a \<longrightarrow> canShare (bind c a binding False) a)
   \<and> (exec n op c = Some c' \<and> \<not> isUnBind op \<and> canShare c a \<longrightarrow> canShare c' a)
   \<and> (unBind c a = (Returns u, c') \<and> distinct (sharable c) \<longrightarrow> \<not> canShare c' a)"
proof (intro conjI impI)
  show "sharable (bind c a binding False) = sharable c" by (simp add: bind_def)
  then show "canShare c a \<Longrightarrow> canShare (bind c a binding False) a" by (simp add: canShare_def)
next
  assume "exec n op c = Some c' \<and> \<not> isUnBind op \<and> canShare c a"
  then show "canShare c' a" using exec_sharable [of n op c c'] by (auto simp: canShare_def)
next
  assume "unBind c a = (Returns u, c') \<and> distinct (sharable c)"
  then show "\<not> canShare c' a" using unBind_sharable [of c a u c'] by (simp add: canShare_def)
qed

theorem only_unBind_unmarks_witness:
  "canShare shared_Service ''Service''
   \<and> canShare (bind shared_Service ''Service'' (Concrete (Num 7)) False) ''Service''
   \<and> exec 0 (Bind ''Service'' (Concrete (Num 7)) False) shared_Service
        = Some (bind shared_Service ''Service'' (Concrete (Num 7)) False)
   \<and> \<not> isUnBind (Bind ''Service'' (Concrete (Num 7)) False)
   \<and> unBind shared_Service ''Service'' = (Returns (), unbound_Service)
   \<and> distinct (sharable shared_Service)
   \<and> \<not> canShare unbound_Service ''Service''"
proof -
  have s: "sharable shared_Service = [''Service'']" "resolved shared_Service = Map.empty"
    by (simp_all add: shared_Service_def bind_def Container_def)
  have i: "\<not> inherited ''Service''" by (simp add: inherited_cases)
  have c: "canShare shared_Service ''Service''" by (simp add: canShare_def s)
  have e: "exec 0 (Bind ''Service'' (Concrete (Num 7)) False) shared_Service
        = Some (bind shared_Service ''Service'' (Concrete (Num 7)) False)" by simp
  have u: "unBind shared_Service ''Service'' = (Returns (), unbound_Service)"
    by (simp add: unbound_Service_def unBind_def destroy_def isResolved_def getInstance_def
          isset_def s i)
  have d: "distinct (sharable shared_Service)" by (simp add: s)
  note t = only_unBind_unmarks
    [where c = shared_Service and a = "''Service''" and binding = "Concrete (Num 7)" and n = 0
       and op = "Bind ''Service'' (Concrete (Num 7)) False"
       and c' = "bind shared_Service ''Service'' (Concrete (Num 7)) False"]
  note t' = only_unBind_unmarks
    [where c = shared_Service and a = "''Service''" and u = "()" and c' = unbound_Service]
  from t c e have k: "canShare (bind shared_Service ''Service'' (Concrete (Num 7)) False) ''Service''"
    by simp
  from t' u d have "\<not> canShare unbound_Service ''Service''" by blast
  with c e u d k show ?thesis by simp
qed

section \<open>When a provider is loaded\<close>












section \<open>What is resolved is bound\<close>


lemma isResolved_resolved: "resolved c' = resolved c \<Longrightarrow> isResolved c' x = isResolved c x"
  by (simp add: isResolved_def getInstance_def)

lemma grow_refl [simp]: "grow c c"
  by (simp add: grow_def)




















lemma bind_isResolved: "isResolved (bind c a b s) x = isResolved c x"
  by (simp add: isResolved_def getInstance_def bind_def)









text \<open>
  \<^verbatim>\<open>_destroyReference\<close> tests the value for truth, not for being set: a binding to
  \<^verbatim>\<open>0\<close> survives \<^verbatim>\<open>unBind\<close>.
\<close>

lemma unBind_keeps_falsy_binding:
  "isBound (snd (unBind (bind (Container 0) ''Zero'' (Concrete (Num 0)) True) ''Zero'')) ''Zero''"
  by (simp add: unBind_def destroy_def isResolved_def bind_def Container_def destroyReference_def
        isBound_def isset_def lookup_defs)




end
